theory Spec2Isabelle
  imports Complex_Main "HOL-Library.Sublist"
begin

section \<open>Data model (shared/schema.ts)\<close>

text \<open>
  Every table of the schema is a list of rows in insertion order; a row is a record with
  the table's columns.  A \<open>serial\<close> primary key is drawn from a per-table sequence kept
  in the database state.  Nullable columns are options.  Integer columns are unbounded
  integers, timestamps and calendar days are integers: the properties below do not depend
  on the width of a column or on the unit of the clock.  Every statement is taken to
  succeed: a lost connection or a violated constraint, on which a route answers 500, is
  not modelled.
\<close>

type_synonym timestamp = int
type_synonym day = int

record topic =
  t_id :: int
  t_name :: string
  t_description :: "string option"
  t_slug :: string
  t_createdAt :: timestamp
  t_updatedAt :: timestamp

record article =
  a_id :: int
  a_title :: string
  a_slug :: string
  a_description :: "string option"
  a_content :: string
  a_topicId :: "int option"
  a_authorId :: "int option"
  a_status :: string
  a_publishedAt :: "timestamp option"
  a_createdAt :: timestamp
  a_updatedAt :: timestamp

record reference =
  r_id :: int
  r_articleId :: int
  r_title :: string
  r_url :: "string option"
  r_description :: "string option"
  r_createdAt :: timestamp
  r_updatedAt :: timestamp

record article_version =
  av_id :: int
  av_articleId :: int
  av_title :: string
  av_description :: "string option"
  av_content :: string
  av_versionNumber :: int
  av_createdById :: "int option"
  av_createdAt :: timestamp

record article_view =
  v_id :: int
  v_articleId :: int
  v_userId :: "int option"
  v_ip :: "string option"
  v_userAgent :: "string option"
  v_referrer :: "string option"
  v_viewedAt :: timestamp

record article_bounce =
  b_id :: int
  b_articleId :: int
  b_userId :: "int option"
  b_ip :: "string option"
  b_userAgent :: "string option"
  b_referrer :: "string option"
  b_timeOnPage :: "int option"
  b_bouncedAt :: timestamp

record social_share =
  sh_id :: int
  sh_articleId :: int
  sh_userId :: "int option"
  sh_platform :: string
  sh_sharedAt :: timestamp

record daily_article_stat =
  s_id :: int
  s_articleId :: int
  s_date :: day
  s_views :: int
  s_shares :: int
  s_bounces :: int
  s_averageTimeOnPage :: int
  s_updatedAt :: timestamp

text \<open>The insert types: the row without its generated columns.\<close>

record insert_article =
  ia_title :: string
  ia_slug :: string
  ia_description :: "string option"
  ia_content :: string
  ia_topicId :: "int option"
  ia_authorId :: "int option"
  ia_status :: "string option"
  ia_publishedAt :: "timestamp option"

record insert_reference =
  ir_articleId :: int
  ir_title :: string
  ir_url :: "string option"
  ir_description :: "string option"

record insert_article_version =
  iav_articleId :: int
  iav_title :: string
  iav_description :: "string option"
  iav_content :: string
  iav_versionNumber :: int
  iav_createdById :: "int option"

record insert_article_view =
  iv_articleId :: int
  iv_userId :: "int option"
  iv_ip :: "string option"
  iv_userAgent :: "string option"
  iv_referrer :: "string option"

record insert_article_bounce =
  ib_articleId :: int
  ib_userId :: "int option"
  ib_ip :: "string option"
  ib_userAgent :: "string option"
  ib_referrer :: "string option"
  ib_timeOnPage :: "int option"

record database =
  topics :: "topic list"
  articles :: "article list"
  references :: "reference list"
  articleVersions :: "article_version list"
  articleViews :: "article_view list"
  articleBounces :: "article_bounce list"
  socialShares :: "social_share list"
  dailyArticleStats :: "daily_article_stat list"
  seq_articles :: int
  seq_references :: int
  seq_articleVersions :: int
  seq_articleViews :: int
  seq_articleBounces :: int
  seq_dailyArticleStats :: int

definition empty_database :: database where
  "empty_database =
     \<lparr>topics = [], articles = [], references = [], articleVersions = [],
      articleViews = [], articleBounces = [], socialShares = [], dailyArticleStats = [],
      seq_articles = 1, seq_references = 1, seq_articleVersions = 1, seq_articleViews = 1,
      seq_articleBounces = 1, seq_dailyArticleStats = 1\<rparr>"

section \<open>Daily aggregates (server/storage.ts, analytics operations)\<close>

text \<open>
  \<open>recordArticleView\<close> and \<open>recordArticleBounce\<close> each run three statements, one per
  \<open>await\<close>: the insert into the event log, the select of the day's aggregate row
  (\<open>const [existingStat] = ...\<close>: the first row of the result, or undefined) and the
  update or insert of the aggregate.  Each statement is a function of its own, so that
  the statements of two calls can also be composed in another order than one call after
  the other.  \<open>today\<close> is the server's calendar day and \<open>now\<close> the clock reading
  of the call.
\<close>

definition insertArticleView :: "database \<Rightarrow> insert_article_view \<Rightarrow> timestamp \<Rightarrow> article_view \<times> database" where
  "insertArticleView db viewData now =
     (let view = \<lparr>v_id = seq_articleViews db, v_articleId = iv_articleId viewData,
                   v_userId = iv_userId viewData, v_ip = iv_ip viewData,
                   v_userAgent = iv_userAgent viewData, v_referrer = iv_referrer viewData,
                   v_viewedAt = now\<rparr>
      in (view, db\<lparr>articleViews := articleViews db @ [view],
                    seq_articleViews := seq_articleViews db + 1\<rparr>))"

definition selectDailyStat :: "database \<Rightarrow> int \<Rightarrow> day \<Rightarrow> daily_article_stat option" where
  "selectDailyStat db articleId today =
     find (\<lambda>s. s_articleId s = articleId \<and> s_date s = today) (dailyArticleStats db)"

definition insertDailyStat :: "database \<Rightarrow> int \<Rightarrow> day \<Rightarrow> int \<Rightarrow> int \<Rightarrow> int \<Rightarrow> int \<Rightarrow> timestamp \<Rightarrow> database" where
  "insertDailyStat db articleId today views shares bounces averageTimeOnPage now =
     db\<lparr>dailyArticleStats := dailyArticleStats db @
            [\<lparr>s_id = seq_dailyArticleStats db, s_articleId = articleId, s_date = today,
              s_views = views, s_shares = shares, s_bounces = bounces,
              s_averageTimeOnPage = averageTimeOnPage, s_updatedAt = now\<rparr>],
        seq_dailyArticleStats := seq_dailyArticleStats db + 1\<rparr>"

definition upsertViewStat :: "database \<Rightarrow> insert_article_view \<Rightarrow> day \<Rightarrow> timestamp \<Rightarrow> daily_article_stat option \<Rightarrow> database" where
  "upsertViewStat db viewData today now existingStat =
     (case existingStat of
        Some e \<Rightarrow>
          db\<lparr>dailyArticleStats :=
               map (\<lambda>s. if s_id s = s_id e
                         then s\<lparr>s_views := s_views e + 1, s_updatedAt := now\<rparr> else s)
                   (dailyArticleStats db)\<rparr>
      | None \<Rightarrow> insertDailyStat db (iv_articleId viewData) today 1 0 0 0 now)"

definition recordArticleView :: "database \<Rightarrow> insert_article_view \<Rightarrow> day \<Rightarrow> timestamp \<Rightarrow> article_view \<times> database" where
  "recordArticleView db viewData today now =
     (let (view, db1) = insertArticleView db viewData now;
          existingStat = selectDailyStat db1 (iv_articleId viewData) today
      in (view, upsertViewStat db1 viewData today now existingStat))"

definition insertArticleBounce :: "database \<Rightarrow> insert_article_bounce \<Rightarrow> timestamp \<Rightarrow> article_bounce \<times> database" where
  "insertArticleBounce db bounceData now =
     (let bounce = \<lparr>b_id = seq_articleBounces db, b_articleId = ib_articleId bounceData,
                     b_userId = ib_userId bounceData, b_ip = ib_ip bounceData,
                     b_userAgent = ib_userAgent bounceData, b_referrer = ib_referrer bounceData,
                     b_timeOnPage = ib_timeOnPage bounceData, b_bouncedAt = now\<rparr>
      in (bounce, db\<lparr>articleBounces := articleBounces db @ [bounce],
                      seq_articleBounces := seq_articleBounces db + 1\<rparr>))"

text \<open>
  \<open>if (bounceData.timeOnPage)\<close> and \<open>bounceData.timeOnPage || 0\<close> test the sample for
  truthiness: null, undefined and 0 are all falsy.
\<close>

definition truthy :: "int option \<Rightarrow> bool" where
  "truthy x = (case x of None \<Rightarrow> False | Some n \<Rightarrow> n \<noteq> 0)"

definition or_zero :: "int option \<Rightarrow> int" where
  "or_zero x = (case x of None \<Rightarrow> 0 | Some n \<Rightarrow> if n \<noteq> 0 then n else 0)"

text \<open>
  \<open>Math.round(totalTime / newBounces)\<close>: the quotient is a JavaScript number, taken
  here as a real (exact for the magnitudes a counter of seconds reaches), and
  \<open>Math.round\<close> rounds to the nearest integer, a half towards plus infinity, which is
  \<^const>\<open>round\<close>.
\<close>

definition Math_round :: "real \<Rightarrow> int" where
  "Math_round x = round x"

definition upsertBounceStat :: "database \<Rightarrow> insert_article_bounce \<Rightarrow> day \<Rightarrow> timestamp \<Rightarrow> daily_article_stat option \<Rightarrow> database" where
  "upsertBounceStat db bounceData today now existingStat =
     (case existingStat of
        Some e \<Rightarrow>
          (let newBounces = s_bounces e + 1;
               newAvgTime =
                 (if truthy (ib_timeOnPage bounceData)
                  then (let totalTime = s_averageTimeOnPage e * s_bounces e
                                          + the (ib_timeOnPage bounceData)
                        in Math_round (of_int totalTime / of_int newBounces))
                  else s_averageTimeOnPage e)
           in db\<lparr>dailyArticleStats :=
                   map (\<lambda>s. if s_id s = s_id e
                             then s\<lparr>s_bounces := newBounces, s_averageTimeOnPage := newAvgTime,
                                    s_updatedAt := now\<rparr>
                             else s)
                       (dailyArticleStats db)\<rparr>)
      | None \<Rightarrow>
          insertDailyStat db (ib_articleId bounceData) today 0 0 1
            (or_zero (ib_timeOnPage bounceData)) now)"

definition recordArticleBounce :: "database \<Rightarrow> insert_article_bounce \<Rightarrow> day \<Rightarrow> timestamp \<Rightarrow> article_bounce \<times> database" where
  "recordArticleBounce db bounceData today now =
     (let (bounce, db1) = insertArticleBounce db bounceData now;
          existingStat = selectDailyStat db1 (ib_articleId bounceData) today
      in (bounce, upsertBounceStat db1 bounceData today now existingStat))"

text \<open>Several calls on one day: the calls of a list made one after the other.\<close>

fun recordArticleBounces :: "database \<Rightarrow> day \<Rightarrow> (insert_article_bounce \<times> timestamp) list \<Rightarrow> database" where
  "recordArticleBounces db today [] = db"
| "recordArticleBounces db today ((bounceData, now) # rest) =
     recordArticleBounces (snd (recordArticleBounce db bounceData today now)) today rest"

fun recordArticleViews :: "database \<Rightarrow> day \<Rightarrow> (insert_article_view \<times> timestamp) list \<Rightarrow> database" where
  "recordArticleViews db today [] = db"
| "recordArticleViews db today ((viewData, now) # rest) =
     recordArticleViews (snd (recordArticleView db viewData today now)) today rest"

text \<open>
  Two calls of \<open>recordArticleView\<close> whose statements interleave at the \<open>await\<close>s: both
  calls have inserted their log row and selected the aggregate before either writes it.
\<close>

definition recordArticleView_interleaved :: "database \<Rightarrow> day \<Rightarrow> insert_article_view \<Rightarrow> timestamp \<Rightarrow> insert_article_view \<Rightarrow> timestamp \<Rightarrow> database" where
  "recordArticleView_interleaved db today viewA nowA viewB nowB =
     (let (_, db1) = insertArticleView db viewA nowA;
          (_, db2) = insertArticleView db1 viewB nowB;
          existingA = selectDailyStat db2 (iv_articleId viewA) today;
          existingB = selectDailyStat db2 (iv_articleId viewB) today;
          db3 = upsertViewStat db2 viewA today nowA existingA
      in upsertViewStat db3 viewB today nowB existingB)"

definition dailyStatsFor :: "database \<Rightarrow> int \<Rightarrow> day \<Rightarrow> daily_article_stat list" where
  "dailyStatsFor db articleId today =
     filter (\<lambda>s. s_articleId s = articleId \<and> s_date s = today) (dailyArticleStats db)"

section \<open>Articles and versions (server/storage.ts)\<close>

definition getArticle :: "database \<Rightarrow> int \<Rightarrow> article option" where
  "getArticle db id' = find (\<lambda>a. a_id a = id') (articles db)"

text \<open>
  \<open>Partial<InsertArticle>\<close>: a key that is absent (\<open>None\<close>) leaves its column alone; a
  nullable column can also be set to null (\<open>Some None\<close>).
\<close>

record partial_article =
  pa_title :: "string option"
  pa_slug :: "string option"
  pa_description :: "string option option"
  pa_content :: "string option"
  pa_topicId :: "int option option"
  pa_authorId :: "int option option"
  pa_status :: "string option"
  pa_publishedAt :: "timestamp option option"

definition no_change :: partial_article where
  "no_change = \<lparr>pa_title = None, pa_slug = None, pa_description = None, pa_content = None,
                 pa_topicId = None, pa_authorId = None, pa_status = None,
                 pa_publishedAt = None\<rparr>"

definition set_columns :: "partial_article \<Rightarrow> timestamp \<Rightarrow> article \<Rightarrow> article" where
  "set_columns articleData now a =
     a\<lparr>a_title := (case pa_title articleData of None \<Rightarrow> a_title a | Some x \<Rightarrow> x),
       a_slug := (case pa_slug articleData of None \<Rightarrow> a_slug a | Some x \<Rightarrow> x),
       a_description := (case pa_description articleData of None \<Rightarrow> a_description a | Some x \<Rightarrow> x),
       a_content := (case pa_content articleData of None \<Rightarrow> a_content a | Some x \<Rightarrow> x),
       a_topicId := (case pa_topicId articleData of None \<Rightarrow> a_topicId a | Some x \<Rightarrow> x),
       a_authorId := (case pa_authorId articleData of None \<Rightarrow> a_authorId a | Some x \<Rightarrow> x),
       a_status := (case pa_status articleData of None \<Rightarrow> a_status a | Some x \<Rightarrow> x),
       a_publishedAt := (case pa_publishedAt articleData of None \<Rightarrow> a_publishedAt a | Some x \<Rightarrow> x),
       a_updatedAt := now\<rparr>"

definition updateArticle :: "database \<Rightarrow> int \<Rightarrow> partial_article \<Rightarrow> timestamp \<Rightarrow> article option \<times> database" where
  "updateArticle db id' articleData now =
     (let rows = map (\<lambda>a. if a_id a = id' then set_columns articleData now a else a) (articles db)
      in (find (\<lambda>a. a_id a = id') rows, db\<lparr>articles := rows\<rparr>))"

text \<open>An absent \<open>status\<close> takes the column's default, \<open>draft\<close>.\<close>

definition createArticle :: "database \<Rightarrow> insert_article \<Rightarrow> timestamp \<Rightarrow> article \<times> database" where
  "createArticle db articleData now =
     (let article = \<lparr>a_id = seq_articles db, a_title = ia_title articleData,
                      a_slug = ia_slug articleData,
                      a_description = ia_description articleData,
                      a_content = ia_content articleData,
                      a_topicId = ia_topicId articleData,
                      a_authorId = ia_authorId articleData,
                      a_status = (case ia_status articleData of
                                    None \<Rightarrow> ''draft'' | Some st \<Rightarrow> st),
                      a_publishedAt = ia_publishedAt articleData,
                      a_createdAt = now, a_updatedAt = now\<rparr>
      in (article, db\<lparr>articles := articles db @ [article],
                       seq_articles := seq_articles db + 1\<rparr>))"

definition getReferences :: "database \<Rightarrow> int \<Rightarrow> reference list" where
  "getReferences db articleId =
     sort_key r_createdAt (filter (\<lambda>r. r_articleId r = articleId) (references db))"

definition createReference :: "database \<Rightarrow> insert_reference \<Rightarrow> timestamp \<Rightarrow> reference \<times> database" where
  "createReference db referenceData now =
     (let reference = \<lparr>r_id = seq_references db, r_articleId = ir_articleId referenceData,
                        r_title = ir_title referenceData, r_url = ir_url referenceData,
                        r_description = ir_description referenceData,
                        r_createdAt = now, r_updatedAt = now\<rparr>
      in (reference, db\<lparr>references := references db @ [reference],
                         seq_references := seq_references db + 1\<rparr>))"

definition getArticleVersions :: "database \<Rightarrow> int \<Rightarrow> article_version list" where
  "getArticleVersions db articleId =
     sort_key (\<lambda>v. - av_versionNumber v)
       (filter (\<lambda>v. av_articleId v = articleId) (articleVersions db))"

definition getArticleVersion :: "database \<Rightarrow> int \<Rightarrow> article_version option" where
  "getArticleVersion db id' = find (\<lambda>v. av_id v = id') (articleVersions db)"

definition createArticleVersion :: "database \<Rightarrow> insert_article_version \<Rightarrow> timestamp \<Rightarrow> article_version \<times> database" where
  "createArticleVersion db versionData now =
     (let version = \<lparr>av_id = seq_articleVersions db, av_articleId = iav_articleId versionData,
                      av_title = iav_title versionData,
                      av_description = iav_description versionData,
                      av_content = iav_content versionData,
                      av_versionNumber = iav_versionNumber versionData,
                      av_createdById = iav_createdById versionData, av_createdAt = now\<rparr>
      in (version, db\<lparr>articleVersions := articleVersions db @ [version],
                       seq_articleVersions := seq_articleVersions db + 1\<rparr>))"

section \<open>Deletion (server/storage.ts) with the schema's ON DELETE actions\<close>

text \<open>
  Deleting a row that exists triggers the foreign keys' actions: the rows that reference
  an article are deleted with it (cascade), and an article's \<open>topicId\<close> is set to null
  when its topic is deleted.  Deleting an id that no row has deletes nothing.
\<close>

definition deleteTopic :: "database \<Rightarrow> int \<Rightarrow> bool \<times> database" where
  "deleteTopic db id' =
     (True,
      if list_ex (\<lambda>t. t_id t = id') (topics db)
      then db\<lparr>topics := filter (\<lambda>t. t_id t \<noteq> id') (topics db),
              articles := map (\<lambda>a. if a_topicId a = Some id' then a\<lparr>a_topicId := None\<rparr> else a)
                              (articles db)\<rparr>
      else db)"

definition deleteArticle :: "database \<Rightarrow> int \<Rightarrow> bool \<times> database" where
  "deleteArticle db id' =
     (True,
      if list_ex (\<lambda>a. a_id a = id') (articles db)
      then db\<lparr>articles := filter (\<lambda>a. a_id a \<noteq> id') (articles db),
              references := filter (\<lambda>r. r_articleId r \<noteq> id') (references db),
              articleVersions := filter (\<lambda>v. av_articleId v \<noteq> id') (articleVersions db),
              articleViews := filter (\<lambda>v. v_articleId v \<noteq> id') (articleViews db),
              articleBounces := filter (\<lambda>b. b_articleId b \<noteq> id') (articleBounces db),
              socialShares := filter (\<lambda>s. sh_articleId s \<noteq> id') (socialShares db),
              dailyArticleStats := filter (\<lambda>s. s_articleId s \<noteq> id') (dailyArticleStats db)\<rparr>
      else db)"

definition deleteReference :: "database \<Rightarrow> int \<Rightarrow> bool \<times> database" where
  "deleteReference db id' =
     (True, db\<lparr>references := filter (\<lambda>r. r_id r \<noteq> id') (references db)\<rparr>)"

section \<open>Version routes (server/api/versions.ts)\<close>

text \<open>
  A response is its status code and its JSON body.  The routes run behind the
  authentication middleware; \<open>userId\<close> is \<open>req.user?.id\<close>.  The path parameters are
  taken as already parsed integers.
\<close>

datatype json_body =
    Message string
  | InvalidData string
  | VersionJson article_version
  | RestoredJson "article option" int
  | ArticleJson "article option" "reference list"

type_synonym response = "nat \<times> json_body"

text \<open>
  A field of a request body: absent, null, a string, or a value of another type.
  \<open>insertArticleVersionSchema\<close> is the schema of the table's columns without \<open>id\<close> and
  \<open>createdAt\<close>: \<open>title\<close> and \<open>content\<close> must be strings, \<open>description\<close> may be absent or
  null.  \<open>articleId\<close>, \<open>versionNumber\<close> and \<open>createdById\<close> are written by the route after
  the spread of the body, so the body cannot set them.
\<close>

datatype json_value = Undefined | Null | Str string | Other

record version_body =
  vb_title :: json_value
  vb_description :: json_value
  vb_content :: json_value

definition parseVersionData :: "version_body \<Rightarrow> int \<Rightarrow> int \<Rightarrow> int option \<Rightarrow> insert_article_version option" where
  "parseVersionData body articleId versionNumber createdById =
     (case (vb_title body, vb_content body) of
        (Str title, Str content) \<Rightarrow>
          (case vb_description body of
             Other \<Rightarrow> None
           | d \<Rightarrow> Some \<lparr>iav_articleId = articleId, iav_title = title,
                          iav_description = (case d of Str x \<Rightarrow> Some x | _ \<Rightarrow> None),
                          iav_content = content, iav_versionNumber = versionNumber,
                          iav_createdById = createdById\<rparr>)
      | _ \<Rightarrow> None)"

text \<open>\<open>versions[0]?.versionNumber || 0\<close>: 0 for an empty list, and for a number 0.\<close>

definition latestVersionNumber :: "article_version list \<Rightarrow> int" where
  "latestVersionNumber versions =
     (case versions of [] \<Rightarrow> 0
      | v # _ \<Rightarrow> if av_versionNumber v \<noteq> 0 then av_versionNumber v else 0)"

text \<open>
  POST /:articleId/versions.  The reads and the parse come first
  (\<open>createVersion_prepare\<close>), the insert is the last statement.
\<close>

definition createVersion_prepare :: "database \<Rightarrow> int \<Rightarrow> version_body \<Rightarrow> int option \<Rightarrow> response + insert_article_version" where
  "createVersion_prepare db articleId body userId =
     (case getArticle db articleId of
        None \<Rightarrow> Inl (404, Message ''Article not found'')
      | Some article \<Rightarrow>
          (let versions = getArticleVersions db articleId;
               latestVersion = latestVersionNumber versions
           in case parseVersionData body articleId (latestVersion + 1) userId of
                None \<Rightarrow> Inl (400, InvalidData ''Invalid version data'')
              | Some versionData \<Rightarrow> Inr versionData))"

definition createVersion :: "database \<Rightarrow> int \<Rightarrow> version_body \<Rightarrow> int option \<Rightarrow> timestamp \<Rightarrow> response \<times> database" where
  "createVersion db articleId body userId now =
     (case createVersion_prepare db articleId body userId of
        Inl res \<Rightarrow> (res, db)
      | Inr versionData \<Rightarrow>
          (let (newVersion, db') = createArticleVersion db versionData now
           in ((201, VersionJson newVersion), db')))"

text \<open>GET /:articleId/versions/:versionId.\<close>

definition getVersion :: "database \<Rightarrow> int \<Rightarrow> int \<Rightarrow> response" where
  "getVersion db articleId versionId =
     (case getArticle db articleId of
        None \<Rightarrow> (404, Message ''Article not found'')
      | Some article \<Rightarrow>
          (case getArticleVersion db versionId of
             None \<Rightarrow> (404, Message ''Version not found for this article'')
           | Some version \<Rightarrow>
               if av_articleId version \<noteq> articleId
               then (404, Message ''Version not found for this article'')
               else (200, VersionJson version)))"

text \<open>POST /:articleId/restore/:versionId.\<close>

definition restoreVersion :: "database \<Rightarrow> int \<Rightarrow> int \<Rightarrow> int option \<Rightarrow> timestamp \<Rightarrow> response \<times> database" where
  "restoreVersion db articleId versionId userId now =
     (case getArticle db articleId of
        None \<Rightarrow> ((404, Message ''Article not found''), db)
      | Some article \<Rightarrow>
          (case getArticleVersion db versionId of
             None \<Rightarrow> ((404, Message ''Version not found for this article''), db)
           | Some version \<Rightarrow>
               if av_articleId version \<noteq> articleId
               then ((404, Message ''Version not found for this article''), db)
               else
                 (let (updatedArticle, db1) =
                        updateArticle db articleId
                          (no_change\<lparr>pa_title := Some (av_title version),
                                     pa_description := Some (av_description version),
                                     pa_content := Some (av_content version)\<rparr>) now;
                      versions = getArticleVersions db1 articleId;
                      latestVersion = latestVersionNumber versions;
                      (_, db2) =
                        createArticleVersion db1
                          \<lparr>iav_articleId = articleId, iav_title = av_title version,
                           iav_description = av_description version,
                           iav_content = av_content version,
                           iav_versionNumber = latestVersion + 1,
                           iav_createdById = userId\<rparr> now
                  in ((200, RestoredJson updatedArticle (av_versionNumber version)), db2))))"

section \<open>Article routes (the router mounted at /api/articles)\<close>

text \<open>
  The create and the update route, as far as they write articles, references and
  versions.  The request body is taken as the schema parses it (\<open>None\<close> when the parse
  throws); each element of \<open>req.body.references\<close> likewise.  \<open>slugify\<close> is the
  library function the routes call, a parameter here.
\<close>

record reference_body =
  rb_title :: string
  rb_url :: "string option"
  rb_description :: "string option"

definition truthy_string :: "string option \<Rightarrow> bool" where
  "truthy_string x = (case x of None \<Rightarrow> False | Some s \<Rightarrow> s \<noteq> [])"

text \<open>
  The loop \<open>for (const reference of references)\<close>: each element is parsed and saved; the
  first element that fails the schema throws, after the elements before it were saved.
\<close>

fun saveReferences :: "database \<Rightarrow> int \<Rightarrow> timestamp \<Rightarrow> reference_body option list \<Rightarrow> reference list \<Rightarrow> reference list option \<times> database" where
  "saveReferences db articleId now [] savedReferences = (Some savedReferences, db)"
| "saveReferences db articleId now (None # rest) savedReferences = (None, db)"
| "saveReferences db articleId now (Some b # rest) savedReferences =
     (let (savedReference, db') =
            createReference db
              \<lparr>ir_articleId = articleId, ir_title = rb_title b, ir_url = rb_url b,
               ir_description = rb_description b\<rparr> now
      in saveReferences db' articleId now rest (savedReferences @ [savedReference]))"

fun deleteReferences :: "database \<Rightarrow> reference list \<Rightarrow> database" where
  "deleteReferences db [] = db"
| "deleteReferences db (ref # rest) = deleteReferences (snd (deleteReference db (r_id ref))) rest"

text \<open>POST /: the new article, its references, then its version 1.\<close>

definition create_data :: "(string \<Rightarrow> string) \<Rightarrow> insert_article \<Rightarrow> int option \<Rightarrow> timestamp \<Rightarrow> insert_article" where
  "create_data slugify parsed userId now =
     (let d1 = (if ia_slug parsed = []
                then parsed\<lparr>ia_slug := slugify (ia_title parsed)\<rparr> else parsed);
          d2 = (if \<not> truthy (ia_authorId d1) \<and> userId \<noteq> None
                then d1\<lparr>ia_authorId := userId\<rparr> else d1)
      in if ia_status d2 = Some ''published'' \<and> ia_publishedAt d2 = None
         then d2\<lparr>ia_publishedAt := Some now\<rparr> else d2)"

definition createArticleRoute :: "(string \<Rightarrow> string) \<Rightarrow> database \<Rightarrow> insert_article option \<Rightarrow> reference_body option list \<Rightarrow> int option \<Rightarrow> timestamp \<Rightarrow> response \<times> database" where
  "createArticleRoute slugify db body references' userId now =
     (case body of
        None \<Rightarrow> ((400, InvalidData ''Invalid article data''), db)
      | Some parsed \<Rightarrow>
          (let articleData = create_data slugify parsed userId now;
               (newArticle, db1) = createArticle db articleData now
           in case saveReferences db1 (a_id newArticle) now references' [] of
                (None, db2) \<Rightarrow> ((400, InvalidData ''Invalid article data''), db2)
              | (Some savedReferences, db2) \<Rightarrow>
                  (let (_, db3) =
                         createArticleVersion db2
                           \<lparr>iav_articleId = a_id newArticle, iav_title = a_title newArticle,
                            iav_description = a_description newArticle,
                            iav_content = a_content newArticle, iav_versionNumber = 1,
                            iav_createdById = userId\<rparr> now
                   in ((201, ArticleJson (Some newArticle) savedReferences), db3))))"

text \<open>
  PUT /:id, in the order of the source: the update data (a slug from a new title, the
  publication time), the update, a new version when the body has a title or a content,
  then the references when the body has them (\<open>None\<close>: the body has no \<open>references\<close>).
\<close>

definition update_data :: "(string \<Rightarrow> string) \<Rightarrow> article \<Rightarrow> partial_article \<Rightarrow> timestamp \<Rightarrow> partial_article" where
  "update_data slugify article parsed now =
     (let u1 = (if truthy_string (pa_title parsed) \<and> \<not> truthy_string (pa_slug parsed)
                then parsed\<lparr>pa_slug := Some (slugify (the (pa_title parsed)))\<rparr>
                else parsed)
      in if pa_status u1 = Some ''published'' \<and> a_status article \<noteq> ''published''
         then u1\<lparr>pa_publishedAt := Some (Some now)\<rparr> else u1)"

definition update_version :: "database \<Rightarrow> int \<Rightarrow> article \<Rightarrow> partial_article \<Rightarrow> int option \<Rightarrow> timestamp \<Rightarrow> database" where
  "update_version db id' article updateData userId now =
     (let versions = getArticleVersions db id';
          latestVersion = latestVersionNumber versions
      in if truthy_string (pa_content updateData) \<or> truthy_string (pa_title updateData)
         then snd (createArticleVersion db
                \<lparr>iav_articleId = id',
                 iav_title = (if truthy_string (pa_title updateData)
                              then the (pa_title updateData) else a_title article),
                 iav_description =
                   (case pa_description updateData of
                      Some (Some d) \<Rightarrow> if d \<noteq> [] then Some d else a_description article
                    | _ \<Rightarrow> a_description article),
                 iav_content = (if truthy_string (pa_content updateData)
                                then the (pa_content updateData) else a_content article),
                 iav_versionNumber = latestVersion + 1,
                 iav_createdById = userId\<rparr> now)
         else db)"

definition update_references :: "database \<Rightarrow> int \<Rightarrow> article option \<Rightarrow> reference_body option list option \<Rightarrow> timestamp \<Rightarrow> response \<times> database" where
  "update_references db id' updatedArticle references' now =
     (case references' of
        None \<Rightarrow> ((200, ArticleJson updatedArticle (getReferences db id')), db)
      | Some given \<Rightarrow>
          (let db1 = deleteReferences db (getReferences db id')
           in case saveReferences db1 id' now given [] of
                (None, db2) \<Rightarrow> ((400, InvalidData ''Invalid article data''), db2)
              | (Some savedReferences, db2) \<Rightarrow>
                  ((200, ArticleJson updatedArticle (getReferences db2 id')), db2)))"

definition updateArticleRoute :: "(string \<Rightarrow> string) \<Rightarrow> database \<Rightarrow> int \<Rightarrow> partial_article option \<Rightarrow> reference_body option list option \<Rightarrow> int option \<Rightarrow> timestamp \<Rightarrow> response \<times> database" where
  "updateArticleRoute slugify db id' body references' userId now =
     (case getArticle db id' of
        None \<Rightarrow> ((404, Message ''Article not found''), db)
      | Some article \<Rightarrow>
          (case body of
             None \<Rightarrow> ((400, InvalidData ''Invalid article data''), db)
           | Some parsed \<Rightarrow>
               (let updateData = update_data slugify article parsed now;
                    (updatedArticle, db1) = updateArticle db id' updateData now;
                    db2 = update_version db1 id' article updateData userId now
                in update_references db2 id' updatedArticle references' now)))"

text \<open>
  Sequences of requests that write versions, one request after the other, and the
  version numbers of an article in ascending order.
\<close>

datatype version_op =
    CreateArticle "insert_article option" "reference_body option list" "int option" timestamp
  | UpdateArticle int "partial_article option" "reference_body option list option"
      "int option" timestamp
  | CreateVersion int version_body "int option" timestamp
  | Restore int int "int option" timestamp

fun apply_version_op :: "(string \<Rightarrow> string) \<Rightarrow> database \<Rightarrow> version_op \<Rightarrow> database" where
  "apply_version_op slugify db (CreateArticle body references' userId now) =
     snd (createArticleRoute slugify db body references' userId now)"
| "apply_version_op slugify db (UpdateArticle articleId body references' userId now) =
     snd (updateArticleRoute slugify db articleId body references' userId now)"
| "apply_version_op slugify db (CreateVersion articleId body userId now) =
     snd (createVersion db articleId body userId now)"
| "apply_version_op slugify db (Restore articleId versionId userId now) =
     snd (restoreVersion db articleId versionId userId now)"

fun run_version_ops :: "(string \<Rightarrow> string) \<Rightarrow> database \<Rightarrow> version_op list \<Rightarrow> database" where
  "run_version_ops slugify db [] = db"
| "run_version_ops slugify db (op # ops) =
     run_version_ops slugify (apply_version_op slugify db op) ops"

text \<open>
  The ids in use were issued by the articles' sequence: every article's id, and the
  article id of every version (a foreign key), is below the sequence's next value.
\<close>

definition ids_issued :: "database \<Rightarrow> bool" where
  "ids_issued db =
     (list_all (\<lambda>a. a_id a < seq_articles db) (articles db)
      \<and> list_all (\<lambda>v. av_articleId v < seq_articles db) (articleVersions db))"

text \<open>
  What a request does to the versions: it leaves the versions, the article ids and their
  sequence alone; or it appends the next version of an existing article; or it adds an
  article with the sequence's next id, with or without its first version.
\<close>

definition keeps_versions :: "database \<Rightarrow> database \<Rightarrow> bool" where
  "keeps_versions db db' =
     (articleVersions db' = articleVersions db
      \<and> map a_id (articles db') = map a_id (articles db)
      \<and> seq_articles db' = seq_articles db)"

definition appends_next :: "database \<Rightarrow> int \<Rightarrow> database \<Rightarrow> bool" where
  "appends_next db articleId db' =
     (\<exists>v. articleVersions db' = articleVersions db @ [v]
        \<and> av_articleId v = articleId
        \<and> av_versionNumber v = latestVersionNumber (getArticleVersions db articleId) + 1
        \<and> map a_id (articles db') = map a_id (articles db)
        \<and> seq_articles db' = seq_articles db
        \<and> getArticle db articleId \<noteq> None)"

definition adds_article :: "database \<Rightarrow> database \<Rightarrow> bool" where
  "adds_article db db' =
     (map a_id (articles db') = map a_id (articles db) @ [seq_articles db]
      \<and> seq_articles db' = seq_articles db + 1
      \<and> (articleVersions db' = articleVersions db
          \<or> (\<exists>v. articleVersions db' = articleVersions db @ [v]
                \<and> av_articleId v = seq_articles db \<and> av_versionNumber v = 1)))"

definition versionNumbers :: "database \<Rightarrow> int \<Rightarrow> int list" where
  "versionNumbers db articleId = rev (map av_versionNumber (getArticleVersions db articleId))"

definition strictly_increasing_from_1 :: "int list \<Rightarrow> bool" where
  "strictly_increasing_from_1 ns =
     (sorted_wrt (<) ns \<and> (case ns of [] \<Rightarrow> True | n # _ \<Rightarrow> n = 1))"

text \<open>
  Two version-create requests for one article that race: both have read the version list
  before either inserts.
\<close>

definition createVersion_interleaved :: "database \<Rightarrow> int \<Rightarrow> version_body \<Rightarrow> int option \<Rightarrow> timestamp \<Rightarrow> version_body \<Rightarrow> int option \<Rightarrow> timestamp \<Rightarrow> database" where
  "createVersion_interleaved db articleId bodyA userA nowA bodyB userB nowB =
     (case (createVersion_prepare db articleId bodyA userA,
            createVersion_prepare db articleId bodyB userB) of
        (Inr dataA, Inr dataB) \<Rightarrow>
          snd (createArticleVersion (snd (createArticleVersion db dataA nowA)) dataB nowB)
      | (Inr dataA, Inl _) \<Rightarrow> snd (createArticleVersion db dataA nowA)
      | (Inl _, Inr dataB) \<Rightarrow> snd (createArticleVersion db dataB nowB)
      | (Inl _, Inl _) \<Rightarrow> db)"

section \<open>Listing and search (server/storage.ts, getArticles)\<close>

text \<open>
  \<open>ILIKE\<close> is the database's pattern match: in the pattern \<open>%\<close> stands for any run of
  characters, \<open>_\<close> for any one character, a backslash takes the next character
  literally, and letters match without regard to case.  Case is folded here for the
  letters A to Z; for other letters the database's locale decides.  The arguments of
  \<open>like_match\<close> are the pattern and the text.
\<close>

definition lower :: "char \<Rightarrow> char" where
  "lower c =
     (case map_of (zip ''ABCDEFGHIJKLMNOPQRSTUVWXYZ'' ''abcdefghijklmnopqrstuvwxyz'') c of
        None \<Rightarrow> c
      | Some l \<Rightarrow> l)"

fun like_match :: "string \<Rightarrow> string \<Rightarrow> bool" where
  "like_match [] [] = True"
| "like_match [] (c # s) = False"
| "like_match (p # ps) [] = (p = CHR ''%'' \<and> like_match ps [])"
| "like_match (p # ps) (c # s) =
     (if p = CHR ''%'' then like_match ps (c # s) \<or> like_match (p # ps) s
      else if p = CHR ''_'' then like_match ps s
      else if p = CHR 0x5C then (case ps of [] \<Rightarrow> False | q # qs \<Rightarrow> q = c \<and> like_match qs s)
      else p = c \<and> like_match ps s)"

definition ilike :: "string \<Rightarrow> string \<Rightarrow> bool" where
  "ilike text pattern = like_match (map lower pattern) (map lower text)"

record get_articles_options =
  opt_topicId :: "int option"
  opt_status :: "string option"
  opt_authorId :: "int option"
  opt_search :: "string option"
  opt_limit :: "nat option"
  opt_offset :: "nat option"

record articles_page =
  page_articles :: "article list"
  page_total :: nat

text \<open>
  A condition is the set of rows on which it is true; a comparison with a null column is
  not true.  \<open>if (topicId)\<close>, \<open>if (status)\<close>, \<open>if (authorId)\<close> and \<open>if (search)\<close> test
  for truthiness: an absent option, the number 0 and the empty string add no condition.
\<close>

definition getArticles_conditions :: "get_articles_options \<Rightarrow> (article \<Rightarrow> bool) list" where
  "getArticles_conditions options =
     (if truthy (opt_topicId options)
      then [\<lambda>a. a_topicId a = opt_topicId options] else [])
     @ (case opt_status options of
          None \<Rightarrow> []
        | Some status \<Rightarrow> if status \<noteq> [] then [\<lambda>a. a_status a = status] else [])
     @ (if truthy (opt_authorId options)
        then [\<lambda>a. a_authorId a = opt_authorId options] else [])
     @ (case opt_search options of
          None \<Rightarrow> []
        | Some search \<Rightarrow>
            if search \<noteq> []
            then (let searchPattern = ''%'' @ search @ ''%''
                  in [\<lambda>a. ilike (a_title a) searchPattern
                          \<or> (case a_description a of None \<Rightarrow> False
                              | Some d \<Rightarrow> ilike d searchPattern)
                          \<or> ilike (a_content a) searchPattern])
            else [])"

definition whereClause :: "(article \<Rightarrow> bool) list \<Rightarrow> (article \<Rightarrow> bool) option" where
  "whereClause conditions =
     (case conditions of
        [] \<Rightarrow> None
      | c # cs \<Rightarrow> Some (foldl (\<lambda>acc condition. \<lambda>a. acc a \<and> condition a) c cs))"

definition select_where :: "(article \<Rightarrow> bool) option \<Rightarrow> article list \<Rightarrow> article list" where
  "select_where w rows = (case w of None \<Rightarrow> rows | Some p \<Rightarrow> filter p rows)"

definition getArticles :: "database \<Rightarrow> get_articles_options \<Rightarrow> articles_page" where
  "getArticles db options =
     (let limit = (case opt_limit options of None \<Rightarrow> 10 | Some l \<Rightarrow> l);
          offset = (case opt_offset options of None \<Rightarrow> 0 | Some off \<Rightarrow> off);
          w = whereClause (getArticles_conditions options);
          total = length (select_where w (articles db));
          articlesResult =
            take limit (drop offset
              (sort_key (\<lambda>a. - a_updatedAt a) (select_where w (articles db))))
      in \<lparr>page_articles = articlesResult, page_total = (if total \<noteq> 0 then total else 0)\<rparr>)"

text \<open>
  The listing in the specification's words: a case-insensitive substring match across
  title, description and content, the filters that are given (a filter of 0 or an empty
  string counting as not given), newest update first.
\<close>

definition contains_ci :: "string \<Rightarrow> string \<Rightarrow> bool" where
  "contains_ci needle text = sublist (map lower needle) (map lower text)"

definition given_number :: "int option \<Rightarrow> int option" where
  "given_number x = (if x = Some 0 then None else x)"

definition given_string :: "string option \<Rightarrow> string option" where
  "given_string x = (if x = Some [] then None else x)"

definition matches_filters :: "get_articles_options \<Rightarrow> article \<Rightarrow> bool" where
  "matches_filters options a =
     ((case given_number (opt_topicId options) of
         None \<Rightarrow> True | Some t \<Rightarrow> a_topicId a = Some t)
      \<and> (case given_string (opt_status options) of
            None \<Rightarrow> True | Some status \<Rightarrow> a_status a = status)
      \<and> (case given_number (opt_authorId options) of
            None \<Rightarrow> True | Some u \<Rightarrow> a_authorId a = Some u)
      \<and> (case given_string (opt_search options) of
            None \<Rightarrow> True
          | Some search \<Rightarrow>
              contains_ci search (a_title a)
              \<or> (case a_description a of None \<Rightarrow> False | Some d \<Rightarrow> contains_ci search d)
              \<or> contains_ci search (a_content a)))"

definition like_metachar :: "char \<Rightarrow> bool" where
  "like_metachar c = (c = CHR ''%'' \<or> c = CHR ''_'' \<or> c = CHR 0x5C)"

definition plain_search :: "get_articles_options \<Rightarrow> bool" where
  "plain_search options =
     (case opt_search options of
        None \<Rightarrow> True
      | Some search \<Rightarrow> list_all (\<lambda>c. \<not> like_metachar c) search)"

definition newest_first :: "article list \<Rightarrow> bool" where
  "newest_first rows = sorted (rev (map a_updatedAt rows))"

section \<open>Top articles (server/storage.ts, getOverviewStats)\<close>

text \<open>
  The fourth query of \<open>getOverviewStats\<close>, whose result is returned as \<open>topArticles\<close>:
  the view log joined with the articles on the article id, grouped by article id and
  title, counted, ordered by the count descending, the first five rows.  The statement
  names neither \<open>startDate\<close> nor \<open>endDate\<close>.  The three totals the function also returns
  are not part of this development.
\<close>

record top_article =
  ta_id :: int
  ta_title :: string
  ta_views :: nat

definition topArticlesQuery :: "database \<Rightarrow> top_article list" where
  "topArticlesQuery db =
     (let joined = concat (map (\<lambda>v. map (\<lambda>a. (v, a))
                                   (filter (\<lambda>a. v_articleId v = a_id a) (articles db)))
                           (articleViews db));
          groups = remdups (map (\<lambda>(v, a). (a_id a, a_title a)) joined);
          counted = map (\<lambda>g. (g, length (filter (\<lambda>(v, a). (a_id a, a_title a) = g) joined)))
                        groups;
          ordered = sort_key (\<lambda>(g, n). - int n) counted
      in map (\<lambda>((i, t), n). \<lparr>ta_id = i, ta_title = t, ta_views = n\<rparr>) (take 5 ordered))"

definition getOverviewStats_topArticles :: "database \<Rightarrow> timestamp option \<Rightarrow> timestamp option \<Rightarrow> top_article list" where
  "getOverviewStats_topArticles db startDate endDate = topArticlesQuery db"

text \<open>
  The ranking the specification describes: the same query over the views of the date
  range only.
\<close>

definition in_range :: "timestamp option \<Rightarrow> timestamp option \<Rightarrow> timestamp \<Rightarrow> bool" where
  "in_range startDate endDate t =
     ((case startDate of None \<Rightarrow> True | Some s \<Rightarrow> s \<le> t)
      \<and> (case endDate of None \<Rightarrow> True | Some e \<Rightarrow> t \<le> e))"

definition topArticles_in_range :: "database \<Rightarrow> timestamp option \<Rightarrow> timestamp option \<Rightarrow> top_article list" where
  "topArticles_in_range db startDate endDate =
     topArticlesQuery
       (db\<lparr>articleViews := filter (\<lambda>v. in_range startDate endDate (v_viewedAt v))
                                    (articleViews db)\<rparr>)"

section \<open>Concrete inputs\<close>

text \<open>
  A database with one topic and three articles, each with the version 1 that the article
  route writes on creation, and no engagement yet.
\<close>

definition salah_importance :: article where
  "salah_importance =
     \<lparr>a_id = 1, a_title = ''Salah Importance'', a_slug = ''salah-importance'',
      a_description = Some ''Why the prayer matters'', a_content = ''Five times a day'',
      a_topicId = Some 1, a_authorId = Some 1, a_status = ''published'',
      a_publishedAt = Some 10, a_createdAt = 10, a_updatedAt = 30\<rparr>"

definition quran_study :: article where
  "quran_study =
     \<lparr>a_id = 2, a_title = ''Quran Study'', a_slug = ''quran-study'',
      a_description = None, a_content = ''Notes on recitation'',
      a_topicId = Some 1, a_authorId = Some 1, a_status = ''draft'',
      a_publishedAt = None, a_createdAt = 20, a_updatedAt = 40\<rparr>"

definition salah_history :: article where
  "salah_history =
     \<lparr>a_id = 3, a_title = ''Salah History'', a_slug = ''salah-history'',
      a_description = None, a_content = ''From Makkah to Madinah'',
      a_topicId = None, a_authorId = Some 1, a_status = ''published'',
      a_publishedAt = Some 50, a_createdAt = 50, a_updatedAt = 50\<rparr>"

definition initial_version :: "int \<Rightarrow> article \<Rightarrow> article_version" where
  "initial_version vid a =
     \<lparr>av_id = vid, av_articleId = a_id a, av_title = a_title a,
      av_description = a_description a, av_content = a_content a, av_versionNumber = 1,
      av_createdById = Some 1, av_createdAt = a_createdAt a\<rparr>"

definition scenario_database :: database where
  "scenario_database =
     empty_database
       \<lparr>topics := [\<lparr>t_id = 1, t_name = ''Worship'', t_description = None,
                    t_slug = ''worship'', t_createdAt = 1, t_updatedAt = 1\<rparr>],
        articles := [salah_importance, quran_study, salah_history],
        articleVersions := [initial_version 1 salah_importance,
                            initial_version 2 quran_study,
                            initial_version 3 salah_history],
        seq_articles := 4, seq_articleVersions := 4\<rparr>"

definition view_of :: "int \<Rightarrow> insert_article_view" where
  "view_of articleId =
     \<lparr>iv_articleId = articleId, iv_userId = None, iv_ip = None, iv_userAgent = None,
      iv_referrer = None\<rparr>"

definition bounce_of :: "int \<Rightarrow> int option \<Rightarrow> insert_article_bounce" where
  "bounce_of articleId timeOnPage =
     \<lparr>ib_articleId = articleId, ib_userId = None, ib_ip = None, ib_userAgent = None,
      ib_referrer = None, ib_timeOnPage = timeOnPage\<rparr>"

definition text_body :: "string \<Rightarrow> string \<Rightarrow> version_body" where
  "text_body title content =
     \<lparr>vb_title = Str title, vb_description = Undefined, vb_content = Str content\<rparr>"

text \<open>The scenario database after one version-create request on article 1.\<close>

definition edited_database :: database where
  "edited_database =
     snd (createVersion scenario_database 1
            (text_body ''Salah Importance'' ''Edit A'') (Some 1) 100)"

text \<open>Queries for the listing, and a view log for the ranking.\<close>

definition salah_query :: get_articles_options where
  "salah_query =
     \<lparr>opt_topicId = None, opt_status = Some ''published'', opt_authorId = None,
      opt_search = Some ''salah'', opt_limit = None, opt_offset = None\<rparr>"

definition underscore_query :: get_articles_options where
  "underscore_query =
     \<lparr>opt_topicId = None, opt_status = None, opt_authorId = None,
      opt_search = Some ''_'', opt_limit = None, opt_offset = None\<rparr>"

definition topic_zero_query :: get_articles_options where
  "topic_zero_query =
     \<lparr>opt_topicId = Some 0, opt_status = None, opt_authorId = None,
      opt_search = None, opt_limit = None, opt_offset = None\<rparr>"

definition views_database :: database where
  "views_database =
     scenario_database
       \<lparr>articleViews :=
          [\<lparr>v_id = 1, v_articleId = 1, v_userId = None, v_ip = None, v_userAgent = None,
            v_referrer = None, v_viewedAt = 1\<rparr>,
           \<lparr>v_id = 2, v_articleId = 1, v_userId = None, v_ip = None, v_userAgent = None,
            v_referrer = None, v_viewedAt = 2\<rparr>,
           \<lparr>v_id = 3, v_articleId = 3, v_userId = None, v_ip = None, v_userAgent = None,
            v_referrer = None, v_viewedAt = 10\<rparr>],
        seq_articleViews := 4\<rparr>"

text \<open>A slug function and a sequence of requests of the four kinds.\<close>

definition plain_slug :: "string \<Rightarrow> string" where
  "plain_slug title = map (\<lambda>c. if c = CHR '' '' then CHR ''-'' else c) title"

definition zakat_article :: insert_article where
  "zakat_article =
     \<lparr>ia_title = ''Zakat'', ia_slug = [], ia_description = None,
      ia_content = ''On giving'', ia_topicId = Some 1, ia_authorId = None,
      ia_status = Some ''published'', ia_publishedAt = None\<rparr>"

definition example_requests :: "version_op list" where
  "example_requests =
     [CreateArticle (Some zakat_article)
        [Some \<lparr>rb_title = ''Quran 2:43'', rb_url = None, rb_description = None\<rparr>]
        (Some 1) 90,
      UpdateArticle 1 (Some (no_change\<lparr>pa_content := Some ''Edit U''\<rparr>)) None (Some 1) 95,
      CreateVersion 1 (text_body ''Salah Importance'' ''Edit A'') (Some 1) 100,
      Restore 1 1 (Some 1) 110]"

section \<open>Auxiliary facts\<close>

lemma Math_round_div:
  assumes "0 < n"
  shows "Math_round (of_int t / of_int n) = (2 * t + n) div (2 * n)"
proof -
  have "(of_int t / of_int n :: real) + 1 / 2 = of_int (2 * t + n) / of_int (2 * n)"
    using assms by (simp add: field_simps)
  then show ?thesis
    unfolding Math_round_def round_def by (simp only: floor_divide_of_int_eq)
qed

lemma find_map_preserve:
  assumes "\<And>x. P (f x) = P x"
  shows "find P (map f xs) = map_option f (find P xs)"
  using assms by (induction xs) auto

lemma filter_map_preserve:
  assumes "\<And>x. P (f x) = P x"
  shows "filter P (map f xs) = map f (filter P xs)"
  using assms by (induction xs) auto

lemma find_as_filter:
  "find P xs = (case filter P xs of [] \<Rightarrow> None | x # _ \<Rightarrow> Some x)"
  by (induction xs) auto

lemma find_append_None:
  "find P xs = None \<Longrightarrow> find P (xs @ ys) = find P ys"
  by (induction xs) (auto split: if_splits)

lemma selectDailyStat_dailyStatsFor:
  "selectDailyStat db aid today =
     (case dailyStatsFor db aid today of [] \<Rightarrow> None | x # _ \<Rightarrow> Some x)"
  by (simp add: selectDailyStat_def dailyStatsFor_def find_as_filter)

lemma or_zero_simps [simp]: "or_zero (Some t) = t" "or_zero None = 0"
  by (simp_all add: or_zero_def)

lemmas view_evaluation =
  scenario_database_def empty_database_def view_of_def recordArticleView_def
  insertArticleView_def selectDailyStat_def upsertViewStat_def insertDailyStat_def Let_def

lemmas version_evaluation =
  scenario_database_def empty_database_def Let_def createVersion_prepare_def
  createVersion_def restoreVersion_def getArticle_def getArticleVersions_def getArticleVersion_def
  latestVersionNumber_def parseVersionData_def createArticleVersion_def updateArticle_def
  text_body_def initial_version_def salah_importance_def quran_study_def salah_history_def
  set_columns_def no_change_def

section \<open>The aggregate row after a view\<close>

lemma recordArticleView_stats:
  "dailyArticleStats (snd (recordArticleView db vd today now)) =
     (case selectDailyStat db (iv_articleId vd) today of
        None \<Rightarrow> dailyArticleStats db @
          [\<lparr>s_id = seq_dailyArticleStats db, s_articleId = iv_articleId vd, s_date = today,
            s_views = 1, s_shares = 0, s_bounces = 0, s_averageTimeOnPage = 0,
            s_updatedAt = now\<rparr>]
      | Some e \<Rightarrow> map (\<lambda>s. if s_id s = s_id e
                         then s\<lparr>s_views := s_views e + 1, s_updatedAt := now\<rparr> else s)
                   (dailyArticleStats db))"
  by (simp add: recordArticleView_def upsertViewStat_def insertDailyStat_def
      selectDailyStat_def insertArticleView_def Let_def split: option.splits prod.splits)

text \<open>
  C9.  A call of \<open>recordArticleView\<close> for an article and a day that have no aggregate
  row appends one row to the table, for that article and day, with views 1 and shares,
  bounces and average time on page 0.  When the select finds a row \<open>e\<close>, the table after
  the call is the table before it with the rows of \<open>e\<close>'s id (the primary key) given
  views \<open>e.views + 1\<close> and the new update time, every other column and every other row
  as before; the row selected afterwards is \<open>e\<close> with exactly these two columns changed.
\<close>

theorem recordArticleView_frame:
  "(selectDailyStat db (iv_articleId viewData) today = None \<longrightarrow>
      (\<exists>row. dailyArticleStats (snd (recordArticleView db viewData today now))
                 = dailyArticleStats db @ [row]
         \<and> selectDailyStat (snd (recordArticleView db viewData today now))
                 (iv_articleId viewData) today = Some row
         \<and> s_articleId row = iv_articleId viewData \<and> s_date row = today
         \<and> s_views row = 1 \<and> s_shares row = 0 \<and> s_bounces row = 0
         \<and> s_averageTimeOnPage row = 0))
   \<and> (\<forall>e. selectDailyStat db (iv_articleId viewData) today = Some e \<longrightarrow>
         dailyArticleStats (snd (recordArticleView db viewData today now))
           = map (\<lambda>s. if s_id s = s_id e
                       then s\<lparr>s_views := s_views e + 1, s_updatedAt := now\<rparr> else s)
                 (dailyArticleStats db)
         \<and> selectDailyStat (snd (recordArticleView db viewData today now))
                 (iv_articleId viewData) today
             = Some (e\<lparr>s_views := s_views e + 1, s_updatedAt := now\<rparr>))"
proof (intro conjI impI allI)
  assume none: "selectDailyStat db (iv_articleId viewData) today = None"
  let ?row = "\<lparr>s_id = seq_dailyArticleStats db, s_articleId = iv_articleId viewData,
      s_date = today, s_views = 1, s_shares = 0, s_bounces = 0, s_averageTimeOnPage = 0,
      s_updatedAt = now\<rparr>"
  have stats: "dailyArticleStats (snd (recordArticleView db viewData today now))
      = dailyArticleStats db @ [?row]"
    using none by (simp add: recordArticleView_stats)
  have sel: "selectDailyStat (snd (recordArticleView db viewData today now))
      (iv_articleId viewData) today = Some ?row"
    using none unfolding selectDailyStat_def stats by (simp add: find_append_None)
  show "\<exists>row. dailyArticleStats (snd (recordArticleView db viewData today now))
                 = dailyArticleStats db @ [row]
         \<and> selectDailyStat (snd (recordArticleView db viewData today now))
                 (iv_articleId viewData) today = Some row
         \<and> s_articleId row = iv_articleId viewData \<and> s_date row = today
         \<and> s_views row = 1 \<and> s_shares row = 0 \<and> s_bounces row = 0
         \<and> s_averageTimeOnPage row = 0"
    using stats sel by (intro exI[of _ ?row]) simp
next
  fix e
  assume some: "selectDailyStat db (iv_articleId viewData) today = Some e"
  show "dailyArticleStats (snd (recordArticleView db viewData today now))
           = map (\<lambda>s. if s_id s = s_id e
                       then s\<lparr>s_views := s_views e + 1, s_updatedAt := now\<rparr> else s)
                 (dailyArticleStats db)"
    using some by (simp add: recordArticleView_stats)
  then show "selectDailyStat (snd (recordArticleView db viewData today now))
                 (iv_articleId viewData) today
             = Some (e\<lparr>s_views := s_views e + 1, s_updatedAt := now\<rparr>)"
    using some unfolding selectDailyStat_def
    by (simp add: find_map_preserve)
qed

text \<open>
  The theorem at the scenario database: the first view of article 1 on day 0 inserts the
  row, the second one updates it.
\<close>

theorem recordArticleView_frame_witness:
  "selectDailyStat scenario_database 1 0 = None
   \<and> dailyArticleStats (snd (recordArticleView scenario_database (view_of 1) 0 100))
       = [\<lparr>s_id = 1, s_articleId = 1, s_date = 0, s_views = 1, s_shares = 0, s_bounces = 0,
           s_averageTimeOnPage = 0, s_updatedAt = 100\<rparr>]
   \<and> selectDailyStat (snd (recordArticleView scenario_database (view_of 1) 0 100)) 1 0
       = Some \<lparr>s_id = 1, s_articleId = 1, s_date = 0, s_views = 1, s_shares = 0,
               s_bounces = 0, s_averageTimeOnPage = 0, s_updatedAt = 100\<rparr>
   \<and> selectDailyStat
        (snd (recordArticleView (snd (recordArticleView scenario_database (view_of 1) 0 100))
                (view_of 1) 0 200)) 1 0
       = Some \<lparr>s_id = 1, s_articleId = 1, s_date = 0, s_views = 2, s_shares = 0,
               s_bounces = 0, s_averageTimeOnPage = 0, s_updatedAt = 200\<rparr>"
  using recordArticleView_frame [of scenario_database "view_of 1" 0 100]
    recordArticleView_frame
      [of "snd (recordArticleView scenario_database (view_of 1) 0 100)" "view_of 1" 0 200]
  by (simp add: view_evaluation)

section \<open>The running average of bounces\<close>

lemma recordArticleBounce_stats:
  "dailyArticleStats (snd (recordArticleBounce db bd today now)) =
     (case selectDailyStat db (ib_articleId bd) today of
        None \<Rightarrow> dailyArticleStats db @
          [\<lparr>s_id = seq_dailyArticleStats db, s_articleId = ib_articleId bd, s_date = today,
            s_views = 0, s_shares = 0, s_bounces = 1,
            s_averageTimeOnPage = or_zero (ib_timeOnPage bd), s_updatedAt = now\<rparr>]
      | Some e \<Rightarrow>
          map (\<lambda>s. if s_id s = s_id e
                    then s\<lparr>s_bounces := s_bounces e + 1,
                           s_averageTimeOnPage :=
                             (if truthy (ib_timeOnPage bd)
                              then Math_round (of_int (s_averageTimeOnPage e * s_bounces e
                                                        + the (ib_timeOnPage bd))
                                               / of_int (s_bounces e + 1))
                              else s_averageTimeOnPage e),
                           s_updatedAt := now\<rparr>
                    else s)
              (dailyArticleStats db))"
  by (simp add: recordArticleBounce_def upsertBounceStat_def insertDailyStat_def
      selectDailyStat_def insertArticleBounce_def Let_def split: option.splits prod.splits)

lemma recordArticleBounce_absent:
  assumes "selectDailyStat db (ib_articleId bd) today = None"
  shows "selectDailyStat (snd (recordArticleBounce db bd today now)) (ib_articleId bd) today
           = Some \<lparr>s_id = seq_dailyArticleStats db, s_articleId = ib_articleId bd,
                   s_date = today, s_views = 0, s_shares = 0, s_bounces = 1,
                   s_averageTimeOnPage = or_zero (ib_timeOnPage bd), s_updatedAt = now\<rparr>"
  using assms unfolding selectDailyStat_def recordArticleBounce_stats
  by (simp add: find_append_None selectDailyStat_def)

lemma recordArticleBounce_present:
  assumes "selectDailyStat db (ib_articleId bd) today = Some e"
  shows "selectDailyStat (snd (recordArticleBounce db bd today now)) (ib_articleId bd) today
           = Some (e\<lparr>s_bounces := s_bounces e + 1,
                     s_averageTimeOnPage :=
                       (if truthy (ib_timeOnPage bd)
                        then Math_round (of_int (s_averageTimeOnPage e * s_bounces e
                                                  + the (ib_timeOnPage bd))
                                         / of_int (s_bounces e + 1))
                        else s_averageTimeOnPage e),
                     s_updatedAt := now\<rparr>)"
  using assms unfolding selectDailyStat_def recordArticleBounce_stats
  by (simp add: find_map_preserve selectDailyStat_def)

lemma three_samples:
  assumes none: "selectDailyStat db aid today = None"
    and ids: "ib_articleId b1 = aid" "ib_articleId b2 = aid" "ib_articleId b3 = aid"
    and samples: "ib_timeOnPage b1 = Some 10" "ib_timeOnPage b2 = Some 20"
      "ib_timeOnPage b3 = Some 30"
  shows "\<exists>row. selectDailyStat
                 (recordArticleBounces db today [(b1, n1), (b2, n2), (b3, n3)]) aid today
               = Some row
           \<and> s_averageTimeOnPage row = 20 \<and> s_bounces row = 3"
proof -
  let ?d1 = "snd (recordArticleBounce db b1 today n1)"
  let ?d2 = "snd (recordArticleBounce ?d1 b2 today n2)"
  let ?d3 = "snd (recordArticleBounce ?d2 b3 today n3)"
  obtain r1 where r1: "selectDailyStat ?d1 aid today = Some r1"
      "s_bounces r1 = 1" "s_averageTimeOnPage r1 = 10"
    using recordArticleBounce_absent[of db b1 today n1] none ids samples by simp
  obtain r2 where r2: "selectDailyStat ?d2 aid today = Some r2"
      "s_bounces r2 = 2" "s_averageTimeOnPage r2 = 15"
    using recordArticleBounce_present[of ?d1 b2 today r1 n2] r1 ids samples
    by (simp add: truthy_def Math_round_def)
  obtain r3 where r3: "selectDailyStat ?d3 aid today = Some r3"
      "s_bounces r3 = 3" "s_averageTimeOnPage r3 = 20"
    using recordArticleBounce_present[of ?d2 b3 today r2 n3] r2 ids samples
    by (simp add: truthy_def Math_round_def)
  show ?thesis using r3 by simp
qed

lemmas bounce_evaluation =
  scenario_database_def empty_database_def bounce_of_def recordArticleBounce_def
  insertArticleBounce_def selectDailyStat_def upsertBounceStat_def insertDailyStat_def
  truthy_def or_zero_def Math_round_def Let_def

text \<open>
  C1, as stated, fails on a sample of 0: after the samples 10, 20 and 30 for article 1 on
  day 0, a fourth bounce with \<open>timeOnPage = 0\<close> leaves the average at 20 (the guard
  \<open>if (bounceData.timeOnPage)\<close> is false for 0), where the claim says 15; the bounce
  count becomes 4.
\<close>

theorem recordArticleBounce_zero_sample_counterexample:
  "map_option s_averageTimeOnPage
     (selectDailyStat
        (recordArticleBounces scenario_database 0
           [(bounce_of 1 (Some 10), 1), (bounce_of 1 (Some 20), 2),
            (bounce_of 1 (Some 30), 3), (bounce_of 1 (Some 0), 4)]) 1 0) = Some 20
   \<and> map_option s_averageTimeOnPage
     (selectDailyStat
        (recordArticleBounces scenario_database 0
           [(bounce_of 1 (Some 10), 1), (bounce_of 1 (Some 20), 2),
            (bounce_of 1 (Some 30), 3), (bounce_of 1 (Some 0), 4)]) 1 0) \<noteq> Some 15
   \<and> map_option s_bounces
     (selectDailyStat
        (recordArticleBounces scenario_database 0
           [(bounce_of 1 (Some 10), 1), (bounce_of 1 (Some 20), 2),
            (bounce_of 1 (Some 30), 3), (bounce_of 1 (Some 0), 4)]) 1 0) = Some 4"
  by (simp add: bounce_evaluation)

text \<open>
  C1, amended.  For a bounce recorded by \<open>recordArticleBounce\<close> for an article and a
  day: when the select finds no aggregate row, one row is appended with bounces 1 and the
  average time on page equal to the sample, or 0 when the bounce has no sample.  When the
  select finds a row \<open>e\<close> (with a bounce count that is not negative), the row selected
  afterwards has \<open>e.bounces + 1\<close> bounces; its average is
  \<open>round((e.average * e.bounces + sample) / (e.bounces + 1))\<close> when the bounce has a
  sample other than 0, and \<open>e\<close>'s average when the bounce has no sample.  Recording the
  samples 10, 20 and 30 for an article and day without a row gives average 20 and 3
  bounces.
\<close>

theorem recordArticleBounce_running_average:
  "(selectDailyStat db (ib_articleId bounceData) today = None \<longrightarrow>
      (\<exists>row. dailyArticleStats (snd (recordArticleBounce db bounceData today now))
                 = dailyArticleStats db @ [row]
         \<and> selectDailyStat (snd (recordArticleBounce db bounceData today now))
                 (ib_articleId bounceData) today = Some row
         \<and> s_bounces row = 1
         \<and> s_averageTimeOnPage row
             = (case ib_timeOnPage bounceData of None \<Rightarrow> 0 | Some t \<Rightarrow> t)))
   \<and> (\<forall>e. selectDailyStat db (ib_articleId bounceData) today = Some e \<longrightarrow>
         (\<exists>row. selectDailyStat (snd (recordArticleBounce db bounceData today now))
                   (ib_articleId bounceData) today = Some row
            \<and> s_bounces row = s_bounces e + 1
            \<and> (\<forall>t. ib_timeOnPage bounceData = Some t \<and> t \<noteq> 0 \<and> 0 \<le> s_bounces e \<longrightarrow>
                   s_averageTimeOnPage row
                     = round (real_of_int (s_averageTimeOnPage e * s_bounces e + t)
                              / real_of_int (s_bounces e + 1)))
            \<and> (ib_timeOnPage bounceData = None \<longrightarrow>
                   s_averageTimeOnPage row = s_averageTimeOnPage e)))
   \<and> (selectDailyStat db0 aid day0 = None
        \<and> ib_articleId b1 = aid \<and> ib_articleId b2 = aid \<and> ib_articleId b3 = aid
        \<and> ib_timeOnPage b1 = Some 10 \<and> ib_timeOnPage b2 = Some 20
        \<and> ib_timeOnPage b3 = Some 30 \<longrightarrow>
        (\<exists>row. selectDailyStat
                  (recordArticleBounces db0 day0 [(b1, n1), (b2, n2), (b3, n3)]) aid day0
                = Some row
           \<and> s_averageTimeOnPage row = 20 \<and> s_bounces row = 3))"
proof (intro conjI impI allI)
  assume none: "selectDailyStat db (ib_articleId bounceData) today = None"
  let ?row = "\<lparr>s_id = seq_dailyArticleStats db, s_articleId = ib_articleId bounceData,
      s_date = today, s_views = 0, s_shares = 0, s_bounces = 1,
      s_averageTimeOnPage = or_zero (ib_timeOnPage bounceData), s_updatedAt = now\<rparr>"
  have "dailyArticleStats (snd (recordArticleBounce db bounceData today now))
      = dailyArticleStats db @ [?row]"
    using none by (simp add: recordArticleBounce_stats)
  moreover have "selectDailyStat (snd (recordArticleBounce db bounceData today now))
      (ib_articleId bounceData) today = Some ?row"
    using none by (rule recordArticleBounce_absent)
  moreover have "s_averageTimeOnPage ?row
      = (case ib_timeOnPage bounceData of None \<Rightarrow> 0 | Some t \<Rightarrow> t)"
    by (simp split: option.splits)
  ultimately show "\<exists>row. dailyArticleStats (snd (recordArticleBounce db bounceData today now))
                 = dailyArticleStats db @ [row]
         \<and> selectDailyStat (snd (recordArticleBounce db bounceData today now))
                 (ib_articleId bounceData) today = Some row
         \<and> s_bounces row = 1
         \<and> s_averageTimeOnPage row
             = (case ib_timeOnPage bounceData of None \<Rightarrow> 0 | Some t \<Rightarrow> t)"
    by (intro exI[of _ ?row]) simp
next
  fix e
  assume some: "selectDailyStat db (ib_articleId bounceData) today = Some e"
  show "\<exists>row. selectDailyStat (snd (recordArticleBounce db bounceData today now))
                   (ib_articleId bounceData) today = Some row
            \<and> s_bounces row = s_bounces e + 1
            \<and> (\<forall>t. ib_timeOnPage bounceData = Some t \<and> t \<noteq> 0 \<and> 0 \<le> s_bounces e \<longrightarrow>
                   s_averageTimeOnPage row
                     = round (real_of_int (s_averageTimeOnPage e * s_bounces e + t)
                              / real_of_int (s_bounces e + 1)))
            \<and> (ib_timeOnPage bounceData = None \<longrightarrow>
                   s_averageTimeOnPage row = s_averageTimeOnPage e)"
    unfolding recordArticleBounce_present[OF some]
    by (simp add: truthy_def Math_round_def)
next
  assume "selectDailyStat db0 aid day0 = None
        \<and> ib_articleId b1 = aid \<and> ib_articleId b2 = aid \<and> ib_articleId b3 = aid
        \<and> ib_timeOnPage b1 = Some 10 \<and> ib_timeOnPage b2 = Some 20
        \<and> ib_timeOnPage b3 = Some 30"
  then show "\<exists>row. selectDailyStat
                  (recordArticleBounces db0 day0 [(b1, n1), (b2, n2), (b3, n3)]) aid day0
                = Some row
           \<and> s_averageTimeOnPage row = 20 \<and> s_bounces row = 3"
    using three_samples[of db0 aid day0 b1 b2 b3 n1 n2 n3] by blast
qed

text \<open>
  The theorem at the scenario database, for article 1 on day 0: the first bounce (sample
  10) inserts the row; a second bounce with sample 20 gives the average 15, one without
  a sample keeps the average 10; the samples 10, 20, 30 give average 20 and 3 bounces.
\<close>

theorem recordArticleBounce_running_average_witness:
  "selectDailyStat scenario_database 1 0 = None
   \<and> map_option s_averageTimeOnPage
       (selectDailyStat (snd (recordArticleBounce scenario_database (bounce_of 1 (Some 10)) 0 1))
          1 0) = Some 10
   \<and> map_option s_bounces
       (selectDailyStat (snd (recordArticleBounce scenario_database (bounce_of 1 (Some 10)) 0 1))
          1 0) = Some 1
   \<and> map_option s_averageTimeOnPage
       (selectDailyStat
          (snd (recordArticleBounce
                  (snd (recordArticleBounce scenario_database (bounce_of 1 (Some 10)) 0 1))
                  (bounce_of 1 (Some 20)) 0 2)) 1 0) = Some 15
   \<and> map_option s_averageTimeOnPage
       (selectDailyStat
          (snd (recordArticleBounce
                  (snd (recordArticleBounce scenario_database (bounce_of 1 (Some 10)) 0 1))
                  (bounce_of 1 None) 0 2)) 1 0) = Some 10
   \<and> map_option s_bounces
       (selectDailyStat
          (snd (recordArticleBounce
                  (snd (recordArticleBounce scenario_database (bounce_of 1 (Some 10)) 0 1))
                  (bounce_of 1 None) 0 2)) 1 0) = Some 2
   \<and> map_option s_averageTimeOnPage
       (selectDailyStat
          (recordArticleBounces scenario_database 0
             [(bounce_of 1 (Some 10), 1), (bounce_of 1 (Some 20), 2),
              (bounce_of 1 (Some 30), 3)]) 1 0) = Some 20
   \<and> map_option s_bounces
       (selectDailyStat
          (recordArticleBounces scenario_database 0
             [(bounce_of 1 (Some 10), 1), (bounce_of 1 (Some 20), 2),
              (bounce_of 1 (Some 30), 3)]) 1 0) = Some 3"
  using recordArticleBounce_running_average
      [of scenario_database "bounce_of 1 (Some 10)" 0 1 scenario_database 1 0
          "bounce_of 1 (Some 10)" "bounce_of 1 (Some 20)" "bounce_of 1 (Some 30)" 1 2 3]
    recordArticleBounce_running_average
      [of "snd (recordArticleBounce scenario_database (bounce_of 1 (Some 10)) 0 1)"
          "bounce_of 1 (Some 20)" 0 2 scenario_database 1 0
          "bounce_of 1 (Some 10)" "bounce_of 1 (Some 20)" "bounce_of 1 (Some 30)" 1 2 3]
    recordArticleBounce_running_average
      [of "snd (recordArticleBounce scenario_database (bounce_of 1 (Some 10)) 0 1)"
          "bounce_of 1 None" 0 2 scenario_database 1 0
          "bounce_of 1 (Some 10)" "bounce_of 1 (Some 20)" "bounce_of 1 (Some 30)" 1 2 3]
  by (simp add: bounce_evaluation)

section \<open>Counting views, one call after the other and interleaved\<close>

lemma recordArticleView_dailyStatsFor_absent:
  assumes "dailyStatsFor db aid today = []" and "iv_articleId vd = aid"
  shows "dailyStatsFor (snd (recordArticleView db vd today now)) aid today
           = [\<lparr>s_id = seq_dailyArticleStats db, s_articleId = aid, s_date = today,
               s_views = 1, s_shares = 0, s_bounces = 0, s_averageTimeOnPage = 0,
               s_updatedAt = now\<rparr>]"
proof -
  have "selectDailyStat db (iv_articleId vd) today = None"
    using assms by (simp add: selectDailyStat_dailyStatsFor)
  then show ?thesis
    using assms by (simp add: dailyStatsFor_def recordArticleView_stats)
qed

lemma recordArticleView_dailyStatsFor_single:
  assumes "dailyStatsFor db aid today = [r]" and "iv_articleId vd = aid"
  shows "dailyStatsFor (snd (recordArticleView db vd today now)) aid today
           = [r\<lparr>s_views := s_views r + 1, s_updatedAt := now\<rparr>]"
proof -
  have sel: "selectDailyStat db (iv_articleId vd) today = Some r"
    using assms by (simp add: selectDailyStat_dailyStatsFor)
  have "dailyStatsFor (snd (recordArticleView db vd today now)) aid today
      = map (\<lambda>s. if s_id s = s_id r
                  then s\<lparr>s_views := s_views r + 1, s_updatedAt := now\<rparr> else s)
            (dailyStatsFor db aid today)"
    unfolding dailyStatsFor_def recordArticleView_stats sel
    by (simp add: filter_map_preserve)
  then show ?thesis using assms by simp
qed

lemma recordArticleViews_single:
  assumes "dailyStatsFor db aid today = [r]"
    and "list_all (\<lambda>(vd, now). iv_articleId vd = aid) calls"
  shows "\<exists>row. dailyStatsFor (recordArticleViews db today calls) aid today = [row]
           \<and> s_views row = s_views r + int (length calls)"
  using assms
proof (induction calls arbitrary: db r)
  case Nil
  then show ?case by simp
next
  case (Cons c calls)
  obtain vd now where c: "c = (vd, now)" by (cases c)
  have step: "dailyStatsFor (snd (recordArticleView db vd today now)) aid today
      = [r\<lparr>s_views := s_views r + 1, s_updatedAt := now\<rparr>]"
    using Cons.prems c by (intro recordArticleView_dailyStatsFor_single) simp_all
  have rest: "list_all (\<lambda>(vd, now). iv_articleId vd = aid) calls"
    using Cons.prems by simp
  from Cons.IH[OF step rest] show ?case
    using c by auto
qed

text \<open>
  C6, as stated, fails when two calls interleave: from a state without a row for article 1
  on day 0, two calls of \<open>recordArticleView\<close> that both select before either writes
  each find no row and each insert one; the table ends with two rows for the article and
  day, both with views 1, and no row with views 2.
\<close>

theorem recordArticleView_interleaved_counterexample:
  "dailyStatsFor scenario_database 1 0 = []
   \<and> map s_views
       (dailyStatsFor
          (recordArticleView_interleaved scenario_database 0 (view_of 1) 10 (view_of 1) 11)
          1 0) = [1, 1]
   \<and> map s_views
       (dailyStatsFor
          (recordArticleView_interleaved scenario_database 0 (view_of 1) 10 (view_of 1) 11)
          1 0) \<noteq> [2]"
  by (simp add: view_evaluation dailyStatsFor_def recordArticleView_interleaved_def)

text \<open>
  C6, amended.  M calls of \<open>recordArticleView\<close> (M at least 1, of any size) for one
  article and one day, made one after the other from a state with no aggregate row for
  that article and day, leave exactly one row for them, with views = M.
\<close>

theorem recordArticleViews_sequential_count:
  assumes "dailyStatsFor db aid today = []"
    and "list_all (\<lambda>(vd, now). iv_articleId vd = aid) calls"
    and "calls \<noteq> []"
  shows "\<exists>row. dailyStatsFor (recordArticleViews db today calls) aid today = [row]
           \<and> s_views row = int (length calls)"
proof -
  obtain vd now rest where calls: "calls = (vd, now) # rest"
    using assms(3) by (cases calls) auto
  have first: "dailyStatsFor (snd (recordArticleView db vd today now)) aid today
      = [\<lparr>s_id = seq_dailyArticleStats db, s_articleId = aid, s_date = today,
          s_views = 1, s_shares = 0, s_bounces = 0, s_averageTimeOnPage = 0,
          s_updatedAt = now\<rparr>]"
    using assms(1,2) calls by (intro recordArticleView_dailyStatsFor_absent) simp_all
  have rest: "list_all (\<lambda>(vd, now). iv_articleId vd = aid) rest"
    using assms(2) calls by simp
  from recordArticleViews_single[OF first rest] show ?thesis
    using calls by auto
qed

text \<open>The theorem at the scenario database, for 100 views of article 1 on day 0.\<close>

theorem recordArticleViews_sequential_count_witness:
  "dailyStatsFor scenario_database 1 0 = []
   \<and> (\<exists>row. dailyStatsFor
               (recordArticleViews scenario_database 0 (replicate 100 (view_of 1, 7))) 1 0
             = [row]
          \<and> s_views row = 100)"
proof -
  have none: "dailyStatsFor scenario_database 1 0 = []"
    by (simp add: dailyStatsFor_def scenario_database_def empty_database_def)
  have all: "list_all (\<lambda>(vd, now). iv_articleId vd = 1) (replicate 100 (view_of 1, 7 :: int))"
    by (simp add: list_all_iff view_of_def)
  have ne: "replicate 100 (view_of 1, 7 :: int) \<noteq> []"
    by simp
  from recordArticleViews_sequential_count[OF none all ne] none show ?thesis
    by simp
qed

section \<open>Version numbers\<close>

lemma foldr_insort_key_smallest:
  assumes "\<forall>x \<in> set xs. g v < g x"
  shows "foldr (insort_key g) xs [v] = v # foldr (insort_key g) xs []"
  using assms
proof (induction xs)
  case Nil
  then show ?case by simp
next
  case (Cons x xs)
  then have "foldr (insort_key g) xs [v] = v # foldr (insort_key g) xs []" by simp
  moreover have "\<not> g x \<le> g v" using Cons.prems by auto
  ultimately show ?case by simp
qed

lemma sort_key_snoc_smallest:
  fixes g :: "'a \<Rightarrow> int"
  assumes "\<forall>x \<in> set xs. g v < g x"
  shows "sort_key g (xs @ [v]) = v # sort_key g xs"
  using foldr_insort_key_smallest[OF assms] by (simp add: sort_key_def)

lemma hd_sort_key_least:
  fixes g :: "'a \<Rightarrow> int"
  assumes "x \<in> set xs"
  shows "g (hd (sort_key g xs)) \<le> g x"
proof -
  have ne: "sort_key g xs \<noteq> []" using assms by (metis empty_iff list.set(1) set_sort)
  then obtain y ys where ys: "sort_key g xs = y # ys" by (cases "sort_key g xs") auto
  have "sorted (map g (sort_key g xs))" by (rule sorted_sort_key)
  then have "\<forall>z \<in> set ys. g y \<le> g z" using ys by simp
  moreover have "x \<in> set (y # ys)" using assms ys by (metis set_sort)
  ultimately show ?thesis using ys by auto
qed

lemma hd_sort_key_mem:
  assumes "xs \<noteq> []"
  shows "hd (sort_key g xs) \<in> set xs"
proof -
  have "sort_key g xs \<noteq> []" using assms by (metis length_0_conv length_sort)
  then have "hd (sort_key g xs) \<in> set (sort_key g xs)" by (rule hd_in_set)
  then show ?thesis by simp
qed

lemma latestVersionNumber_eq:
  "latestVersionNumber vs = (case vs of [] \<Rightarrow> 0 | v # _ \<Rightarrow> av_versionNumber v)"
  by (simp add: latestVersionNumber_def split: list.splits)

lemma latest_upper_bound:
  assumes "v \<in> set (articleVersions db)" and "av_articleId v = aid"
  shows "av_versionNumber v \<le> latestVersionNumber (getArticleVersions db aid)"
proof -
  let ?vs = "filter (\<lambda>v. av_articleId v = aid) (articleVersions db)"
  have mem: "v \<in> set ?vs" using assms by simp
  then have "sort_key (\<lambda>v. - av_versionNumber v) ?vs \<noteq> []"
    by (metis empty_iff list.set(1) set_sort)
  then have "latestVersionNumber (getArticleVersions db aid)
      = av_versionNumber (hd (sort_key (\<lambda>v. - av_versionNumber v) ?vs))"
    by (simp add: latestVersionNumber_eq getArticleVersions_def split: list.splits)
  moreover have "- av_versionNumber (hd (sort_key (\<lambda>v. - av_versionNumber v) ?vs))
      \<le> - av_versionNumber v"
    using hd_sort_key_least[OF mem, of "\<lambda>v. - av_versionNumber v"] .
  ultimately show ?thesis by simp
qed

lemma latest_is_Max:
  assumes "filter (\<lambda>v. av_articleId v = aid) (articleVersions db) \<noteq> []"
  shows "latestVersionNumber (getArticleVersions db aid)
    = Max (av_versionNumber ` {v \<in> set (articleVersions db). av_articleId v = aid})"
proof -
  let ?vs = "filter (\<lambda>v. av_articleId v = aid) (articleVersions db)"
  let ?h = "hd (sort_key (\<lambda>v. - av_versionNumber v) ?vs)"
  have "sort_key (\<lambda>v. - av_versionNumber v) ?vs \<noteq> []"
    using assms by (metis length_0_conv length_sort)
  then have eq: "latestVersionNumber (getArticleVersions db aid) = av_versionNumber ?h"
    by (simp add: latestVersionNumber_eq getArticleVersions_def split: list.splits)
  have mem: "?h \<in> set ?vs" using assms by (rule hd_sort_key_mem)
  have "Max (av_versionNumber ` {v \<in> set (articleVersions db). av_articleId v = aid})
      = av_versionNumber ?h"
  proof (rule Max_eqI)
    show "finite (av_versionNumber ` {v \<in> set (articleVersions db). av_articleId v = aid})"
      by simp
    show "av_versionNumber ?h \<in> av_versionNumber ` {v \<in> set (articleVersions db). av_articleId v = aid}"
      using mem by auto
    fix y assume "y \<in> av_versionNumber ` {v \<in> set (articleVersions db). av_articleId v = aid}"
    then obtain v where v: "v \<in> set (articleVersions db)" "av_articleId v = aid" "y = av_versionNumber v"
      by auto
    from latest_upper_bound[OF v(1) v(2)] show "y \<le> av_versionNumber ?h"
      using eq v(3) by simp
  qed
  then show ?thesis using eq by simp
qed

lemma latest_empty:
  assumes "filter (\<lambda>v. av_articleId v = aid) (articleVersions db) = []"
  shows "latestVersionNumber (getArticleVersions db aid) = 0"
  using assms by (simp add: latestVersionNumber_def getArticleVersions_def)

lemma getArticleVersions_append_latest:
  assumes "av_articleId v = aid"
    and "av_versionNumber v = latestVersionNumber (getArticleVersions db aid) + 1"
    and "articleVersions db' = articleVersions db @ [v]"
  shows "getArticleVersions db' aid = v # getArticleVersions db aid"
proof -
  have "\<forall>x \<in> set (filter (\<lambda>v. av_articleId v = aid) (articleVersions db)).
          - av_versionNumber v < - av_versionNumber x"
    using latest_upper_bound[of _ db aid] assms(2) by fastforce
  then show ?thesis
    using assms(1,3) by (simp add: getArticleVersions_def sort_key_snoc_smallest)
qed

lemma getArticleVersions_append_other:
  assumes "av_articleId v \<noteq> aid" and "articleVersions db' = articleVersions db @ [v]"
  shows "getArticleVersions db' aid = getArticleVersions db aid"
  using assms by (simp add: getArticleVersions_def)

lemma find_append_Some:
  "find P xs = Some x \<Longrightarrow> find P (xs @ ys) = Some x"
  by (induction xs) (auto split: if_splits)

lemma find_Some_mem:
  "find P xs = Some x \<Longrightarrow> x \<in> set xs \<and> P x"
  by (induction xs) (auto split: if_splits)

lemma parseVersionData_ok:
  assumes "vb_title body = Str title" and "vb_content body = Str content"
    and "vb_description body \<noteq> Other"
  shows "parseVersionData body aid n uid
    = Some \<lparr>iav_articleId = aid, iav_title = title,
            iav_description = (case vb_description body of Str x \<Rightarrow> Some x | _ \<Rightarrow> None),
            iav_content = content, iav_versionNumber = n, iav_createdById = uid\<rparr>"
  using assms by (simp add: parseVersionData_def split: json_value.splits)

lemma latest_cases:
  "latestVersionNumber (getArticleVersions db aid) + 1
     = (if {x \<in> set (articleVersions db). av_articleId x = aid} = {} then 1
        else Max (av_versionNumber ` {x \<in> set (articleVersions db). av_articleId x = aid}) + 1)"
proof (cases "filter (\<lambda>v. av_articleId v = aid) (articleVersions db) = []")
  case True
  then have e: "{x \<in> set (articleVersions db). av_articleId x = aid} = {}"
    by (auto simp: filter_empty_conv)
  show ?thesis unfolding latest_empty[OF True] e by simp
next
  case False
  then have ne: "{x \<in> set (articleVersions db). av_articleId x = aid} \<noteq> {}"
    by (auto simp: filter_empty_conv)
  show ?thesis unfolding latest_is_Max[OF False] by (simp only: ne if_False)
qed

text \<open>
  C4.  When POST /:articleId/versions creates a version (the article exists and the body
  passes the schema), the response is 201 with the new row, the row is appended to the
  table, and its versionNumber is the highest versionNumber among the article's versions
  plus 1, or 1 when the article has no version yet.
\<close>

theorem createVersion_next_number:
  assumes "getArticle db aid = Some a"
    and "vb_title body = Str title" and "vb_content body = Str content"
    and "vb_description body \<noteq> Other"
  shows "\<exists>v. createVersion db aid body uid now
               = ((201, VersionJson v),
                  db\<lparr>articleVersions := articleVersions db @ [v],
                     seq_articleVersions := seq_articleVersions db + 1\<rparr>)
           \<and> av_articleId v = aid \<and> av_title v = title \<and> av_content v = content
           \<and> av_versionNumber v
               = (if {x \<in> set (articleVersions db). av_articleId x = aid} = {} then 1
                  else Max (av_versionNumber `
                              {x \<in> set (articleVersions db). av_articleId x = aid}) + 1)"
proof -
  let ?n = "latestVersionNumber (getArticleVersions db aid) + 1"
  have prep: "createVersion_prepare db aid body uid
      = Inr \<lparr>iav_articleId = aid, iav_title = title,
            iav_description = (case vb_description body of Str x \<Rightarrow> Some x | _ \<Rightarrow> None),
            iav_content = content, iav_versionNumber = ?n, iav_createdById = uid\<rparr>"
    using assms(1) parseVersionData_ok[OF assms(2,3,4)]
    by (simp add: createVersion_prepare_def Let_def)
  show ?thesis
    unfolding createVersion_def prep
    by (simp add: createArticleVersion_def Let_def latest_cases)
qed

section \<open>Restore and the single-version fetch\<close>

lemma getArticleVersions_cong:
  "articleVersions db' = articleVersions db \<Longrightarrow> getArticleVersions db' aid = getArticleVersions db aid"
  by (simp add: getArticleVersions_def)

lemma updateArticle_versions [simp]:
  "articleVersions (snd (updateArticle db aid pa now)) = articleVersions db"
  "seq_articleVersions (snd (updateArticle db aid pa now)) = seq_articleVersions db"
  by (simp_all add: updateArticle_def Let_def)

lemma updateArticle_result:
  assumes "getArticle db aid = Some a"
  shows "fst (updateArticle db aid pa now) = Some (set_columns pa now a)"
    and "getArticle (snd (updateArticle db aid pa now)) aid = Some (set_columns pa now a)"
    and "articles (snd (updateArticle db aid pa now))
           = map (\<lambda>x. if a_id x = aid then set_columns pa now x else x) (articles db)"
proof -
  have pres: "\<And>x. a_id (if a_id x = aid then set_columns pa now x else x) = aid \<longleftrightarrow> a_id x = aid"
    by (simp add: set_columns_def)
  have "find (\<lambda>x. a_id x = aid)
          (map (\<lambda>x. if a_id x = aid then set_columns pa now x else x) (articles db))
        = map_option (\<lambda>x. if a_id x = aid then set_columns pa now x else x)
            (find (\<lambda>x. a_id x = aid) (articles db))"
    by (rule find_map_preserve) (rule pres)
  moreover have "a_id a = aid"
    using assms find_Some_mem[of "\<lambda>x. a_id x = aid" "articles db" a]
    by (simp add: getArticle_def)
  ultimately have f: "find (\<lambda>x. a_id x = aid)
          (map (\<lambda>x. if a_id x = aid then set_columns pa now x else x) (articles db))
        = Some (set_columns pa now a)"
    using assms by (simp add: getArticle_def)
  show "fst (updateArticle db aid pa now) = Some (set_columns pa now a)"
    using f by (simp add: updateArticle_def Let_def)
  show "getArticle (snd (updateArticle db aid pa now)) aid = Some (set_columns pa now a)"
    using f by (simp add: updateArticle_def Let_def getArticle_def)
  show "articles (snd (updateArticle db aid pa now))
           = map (\<lambda>x. if a_id x = aid then set_columns pa now x else x) (articles db)"
    by (simp add: updateArticle_def Let_def)
qed

lemma set_columns_restore:
  "set_columns (no_change\<lparr>pa_title := Some t, pa_description := Some d, pa_content := Some c\<rparr>) now x
     = x\<lparr>a_title := t, a_description := d, a_content := c, a_updatedAt := now\<rparr>"
  by (simp add: set_columns_def no_change_def)

lemma restoreVersion_ok:
  assumes "getArticle db aid = Some a"
    and "getArticleVersion db vid = Some target"
    and "av_articleId target = aid"
  shows "restoreVersion db aid vid uid now
    = ((200, RestoredJson
               (Some (a\<lparr>a_title := av_title target, a_description := av_description target,
                        a_content := av_content target, a_updatedAt := now\<rparr>))
               (av_versionNumber target)),
       db\<lparr>articles := map (\<lambda>x. if a_id x = aid
                                then x\<lparr>a_title := av_title target,
                                       a_description := av_description target,
                                       a_content := av_content target, a_updatedAt := now\<rparr>
                                else x) (articles db),
          articleVersions := articleVersions db @
            [\<lparr>av_id = seq_articleVersions db, av_articleId = aid,
              av_title = av_title target, av_description = av_description target,
              av_content = av_content target,
              av_versionNumber = latestVersionNumber (getArticleVersions db aid) + 1,
              av_createdById = uid, av_createdAt = now\<rparr>],
          seq_articleVersions := seq_articleVersions db + 1\<rparr>)"
proof -
  let ?pa = "no_change\<lparr>pa_title := Some (av_title target),
               pa_description := Some (av_description target),
               pa_content := Some (av_content target)\<rparr>"
  let ?upd = "\<lambda>x. x\<lparr>a_title := av_title target, a_description := av_description target,
                        a_content := av_content target, a_updatedAt := now\<rparr>"
  have sc: "set_columns ?pa now = ?upd"
    by (rule ext) (simp add: set_columns_restore)
  have u: "updateArticle db aid ?pa now
      = (Some (?upd a),
         db\<lparr>articles := map (\<lambda>x. if a_id x = aid then ?upd x else x) (articles db)\<rparr>)"
    using updateArticle_result(1)[OF assms(1), of ?pa now]
    by (simp add: updateArticle_def Let_def sc prod_eq_iff)
  have gv: "\<And>rows. getArticleVersions (db\<lparr>articles := rows\<rparr>) aid = getArticleVersions db aid"
    by (simp add: getArticleVersions_def)
  show ?thesis
    using assms
    by (simp add: restoreVersion_def u gv createArticleVersion_def Let_def)
qed

text \<open>
  C3.  Restoring an existing article to a target version that belongs to it answers 200
  with the updated article and the target's version number; the article's title,
  description and content are the target's; exactly one version row is appended, for the
  same article, numbered the highest version number of the article plus 1 (so above the
  target's), with the target's title, description and content; the target version is
  still found unchanged under its id, and the table of versions is longer than before.
\<close>

theorem restoreVersion_forward_only:
  assumes "getArticle db aid = Some a"
    and "getArticleVersion db vid = Some target"
    and "av_articleId target = aid"
  shows "\<exists>updated new db'.
           restoreVersion db aid vid uid now
             = ((200, RestoredJson (Some updated) (av_versionNumber target)), db')
         \<and> getArticle db' aid = Some updated
         \<and> updated = a\<lparr>a_title := av_title target, a_description := av_description target,
                         a_content := av_content target, a_updatedAt := now\<rparr>
         \<and> articleVersions db' = articleVersions db @ [new]
         \<and> av_articleId new = aid
         \<and> av_versionNumber new
             = Max (av_versionNumber ` {x \<in> set (articleVersions db). av_articleId x = aid}) + 1
         \<and> av_versionNumber target < av_versionNumber new
         \<and> av_title new = av_title target
         \<and> av_description new = av_description target
         \<and> av_content new = av_content target
         \<and> getArticleVersion db' vid = Some target
         \<and> length (articleVersions db) < length (articleVersions db')"
proof -
  let ?upd = "\<lambda>x. x\<lparr>a_title := av_title target, a_description := av_description target,
                        a_content := av_content target, a_updatedAt := now\<rparr>"
  let ?new = "\<lparr>av_id = seq_articleVersions db, av_articleId = aid,
              av_title = av_title target, av_description = av_description target,
              av_content = av_content target,
              av_versionNumber = latestVersionNumber (getArticleVersions db aid) + 1,
              av_createdById = uid, av_createdAt = now\<rparr>"
  let ?db' = "db\<lparr>articles := map (\<lambda>x. if a_id x = aid then ?upd x else x) (articles db),
          articleVersions := articleVersions db @ [?new],
          seq_articleVersions := seq_articleVersions db + 1\<rparr>"
  have res: "restoreVersion db aid vid uid now
      = ((200, RestoredJson (Some (?upd a)) (av_versionNumber target)), ?db')"
    by (rule restoreVersion_ok[OF assms])
  have tmem: "target \<in> set (articleVersions db)"
    using assms(2) find_Some_mem[of "\<lambda>v. av_id v = vid" "articleVersions db" target]
    by (simp add: getArticleVersion_def)
  then have ne: "{x \<in> set (articleVersions db). av_articleId x = aid} \<noteq> {}"
    using assms(3) by auto
  have num: "av_versionNumber ?new
      = Max (av_versionNumber ` {x \<in> set (articleVersions db). av_articleId x = aid}) + 1"
    using latest_cases[of db aid] by (simp only: ne if_False article_version.simps)
  have lt: "av_versionNumber target < av_versionNumber ?new"
    using latest_upper_bound[OF tmem assms(3)] by simp
  have ga: "getArticle ?db' aid = Some (?upd a)"
    using updateArticle_result(2)[OF assms(1), of
        "no_change\<lparr>pa_title := Some (av_title target),
               pa_description := Some (av_description target),
               pa_content := Some (av_content target)\<rparr>" now]
    by (simp add: updateArticle_def Let_def getArticle_def set_columns_restore cong: if_cong)
  have gv: "getArticleVersion ?db' vid = Some target"
    using assms(2) by (simp add: getArticleVersion_def find_append_Some)
  show ?thesis
    apply (rule exI[of _ "?upd a"])
    apply (rule exI[of _ ?new])
    apply (rule exI[of _ ?db'])
    using res ga gv num lt by simp
qed

text \<open>
  C8.  For an article that exists, the single-version fetch and the restore answer a
  version id that no version has and a version id of another article's version with the
  same response, 404 and the message "Version not found for this article"; the restore
  leaves the database as it was.
\<close>

theorem version_not_found_same_signal:
  assumes "getArticle db aid = Some a"
    and "getArticleVersion db missing = None"
    and "getArticleVersion db foreign = Some v"
    and "av_articleId v \<noteq> aid"
  shows "getVersion db aid missing = (404, Message ''Version not found for this article'')
       \<and> getVersion db aid foreign = getVersion db aid missing
       \<and> restoreVersion db aid missing uid now
           = ((404, Message ''Version not found for this article''), db)
       \<and> restoreVersion db aid foreign uid now = restoreVersion db aid missing uid now"
  using assms by (simp add: getVersion_def restoreVersion_def)

section \<open>Version numbers under sequences of requests\<close>

lemma versionNumbers_bound:
  assumes "n \<in> set (versionNumbers db aid)"
  shows "n \<le> latestVersionNumber (getArticleVersions db aid)"
proof -
  from assms obtain v where v: "v \<in> set (getArticleVersions db aid)" "n = av_versionNumber v"
    by (auto simp: versionNumbers_def)
  then have "v \<in> set (articleVersions db)" "av_articleId v = aid"
    by (simp_all add: getArticleVersions_def)
  from latest_upper_bound[OF this] show ?thesis using v(2) by simp
qed

lemma strictly_increasing_snoc:
  assumes "strictly_increasing_from_1 (versionNumbers db aid)"
  shows "strictly_increasing_from_1
           (versionNumbers db aid @ [latestVersionNumber (getArticleVersions db aid) + 1])"
proof (cases "versionNumbers db aid")
  case Nil
  then have "getArticleVersions db aid = []" by (simp add: versionNumbers_def)
  then show ?thesis
    using Nil by (simp add: strictly_increasing_from_1_def latestVersionNumber_def)
next
  case (Cons n ns)
  have bound: "\<forall>m \<in> set (versionNumbers db aid).
      m < latestVersionNumber (getArticleVersions db aid) + 1"
  proof
    fix m assume "m \<in> set (versionNumbers db aid)"
    from versionNumbers_bound[OF this]
    show "m < latestVersionNumber (getArticleVersions db aid) + 1" by simp
  qed
  have s: "sorted_wrt (<) (versionNumbers db aid)"
    using assms unfolding strictly_increasing_from_1_def by (rule conjunct1)
  have h: "n = 1"
    using assms unfolding strictly_increasing_from_1_def Cons by simp
  have "sorted_wrt (<)
      (versionNumbers db aid @ [latestVersionNumber (getArticleVersions db aid) + 1])"
    using s bound by (simp add: sorted_wrt_append)
  then show ?thesis
    using h Cons by (simp add: strictly_increasing_from_1_def)
qed

lemma keeps_versions_refl [simp]: "keeps_versions db db"
  by (simp add: keeps_versions_def)

lemma keeps_versions_trans:
  "keeps_versions db db' \<Longrightarrow> keeps_versions db' db'' \<Longrightarrow> keeps_versions db db''"
  by (simp add: keeps_versions_def)

lemma createReference_keeps: "keeps_versions db (snd (createReference db d now))"
  by (simp add: keeps_versions_def createReference_def Let_def)

lemma deleteReference_keeps: "keeps_versions db (snd (deleteReference db i))"
  by (simp add: keeps_versions_def deleteReference_def)

lemma saveReferences_keeps:
  "keeps_versions db (snd (saveReferences db aid now bodies saved))"
proof (induction db aid now bodies saved rule: saveReferences.induct)
  case (1 db articleId now savedReferences)
  then show ?case by simp
next
  case (2 db articleId now rest savedReferences)
  then show ?case by simp
next
  case (3 db articleId now b rest savedReferences)
  let ?d = "\<lparr>ir_articleId = articleId, ir_title = rb_title b, ir_url = rb_url b,
               ir_description = rb_description b\<rparr>"
  obtain r db' where c: "createReference db ?d now = (r, db')"
    by (cases "createReference db ?d now")
  have k: "keeps_versions db db'"
    using createReference_keeps[of db ?d now] c by simp
  have "keeps_versions db' (snd (saveReferences db' articleId now rest (savedReferences @ [r])))"
    using "3.IH"[of "(r, db')" r db'] c by simp
  then show ?case
    using k c by (simp add: keeps_versions_trans)
qed

lemma deleteReferences_keeps: "keeps_versions db (deleteReferences db refs)"
proof (induction refs arbitrary: db)
  case Nil
  then show ?case by simp
next
  case (Cons r refs)
  from keeps_versions_trans[OF deleteReference_keeps Cons.IH]
  show ?case by simp
qed

lemma updateArticle_keeps: "keeps_versions db (snd (updateArticle db i pa now))"
  by (simp add: keeps_versions_def updateArticle_def Let_def set_columns_def comp_def
      cong: if_cong)

lemma appends_next_keeps:
  "appends_next db aid db' \<Longrightarrow> keeps_versions db' db'' \<Longrightarrow> appends_next db aid db''"
  by (auto simp: appends_next_def keeps_versions_def)

lemma keeps_appends_next:
  assumes "keeps_versions db db1"
    and "articleVersions db2 = articleVersions db1 @ [v]"
    and "av_articleId v = aid"
    and "av_versionNumber v = latestVersionNumber (getArticleVersions db1 aid) + 1"
    and "map a_id (articles db2) = map a_id (articles db1)"
    and "seq_articles db2 = seq_articles db1"
    and "getArticle db aid \<noteq> None"
  shows "appends_next db aid db2"
proof -
  have "getArticleVersions db1 aid = getArticleVersions db aid"
    using assms(1) by (simp add: keeps_versions_def getArticleVersions_def)
  then show ?thesis
    using assms unfolding appends_next_def keeps_versions_def
    by (intro exI[of _ v]) simp
qed

lemma createArticleVersion_fields [simp]:
  "articleVersions (snd (createArticleVersion db d now))
     = articleVersions db @ [fst (createArticleVersion db d now)]"
  "articles (snd (createArticleVersion db d now)) = articles db"
  "seq_articles (snd (createArticleVersion db d now)) = seq_articles db"
  "av_articleId (fst (createArticleVersion db d now)) = iav_articleId d"
  "av_versionNumber (fst (createArticleVersion db d now)) = iav_versionNumber d"
  by (simp_all add: createArticleVersion_def Let_def)

lemma update_references_keeps:
  "keeps_versions db (snd (update_references db aid updated refs now))"
proof (cases refs)
  case None
  then show ?thesis by (simp add: update_references_def)
next
  case (Some given)
  let ?db1 = "deleteReferences db (getReferences db aid)"
  have "keeps_versions db (snd (saveReferences ?db1 aid now given []))"
    by (rule keeps_versions_trans[OF deleteReferences_keeps saveReferences_keeps])
  moreover have "snd (update_references db aid updated refs now)
      = snd (saveReferences ?db1 aid now given [])"
    using Some by (simp add: update_references_def Let_def split: prod.splits option.splits)
  ultimately show ?thesis by simp
qed

lemma update_version_effect:
  "update_version db aid article updateData uid now = db
   \<or> (\<exists>v. articleVersions (update_version db aid article updateData uid now)
              = articleVersions db @ [v]
          \<and> av_articleId v = aid
          \<and> av_versionNumber v = latestVersionNumber (getArticleVersions db aid) + 1
          \<and> articles (update_version db aid article updateData uid now) = articles db
          \<and> seq_articles (update_version db aid article updateData uid now)
              = seq_articles db)"
  by (simp add: update_version_def Let_def)

lemma updateArticleRoute_effect:
  "keeps_versions db (snd (updateArticleRoute slugify db aid body refs uid now))
   \<or> appends_next db aid (snd (updateArticleRoute slugify db aid body refs uid now))"
proof (cases "getArticle db aid")
  case None
  then show ?thesis by (simp add: updateArticleRoute_def)
next
  case (Some article)
  show ?thesis
  proof (cases body)
    case None
    then show ?thesis using Some by (simp add: updateArticleRoute_def)
  next
    case (Some parsed)
    define updateData where "updateData = update_data slugify article parsed now"
    define updated where "updated = fst (updateArticle db aid updateData now)"
    define db1 where "db1 = snd (updateArticle db aid updateData now)"
    define db2 where "db2 = update_version db1 aid article updateData uid now"
    define final where "final = snd (update_references db2 aid updated refs now)"
    have res: "snd (updateArticleRoute slugify db aid body refs uid now) = final"
      using \<open>getArticle db aid = Some article\<close> Some
      by (simp add: updateArticleRoute_def final_def db2_def db1_def updated_def
          updateData_def Let_def split_beta)
    have k1: "keeps_versions db db1"
      unfolding db1_def by (rule updateArticle_keeps)
    have k3: "keeps_versions db2 final"
      unfolding final_def by (rule update_references_keeps)
    have s2: "keeps_versions db db2 \<or> appends_next db aid db2"
      using update_version_effect[of db1 aid article updateData uid now]
    proof
      assume "update_version db1 aid article updateData uid now = db1"
      then show ?thesis using k1 by (simp add: db2_def)
    next
      assume "\<exists>v. articleVersions (update_version db1 aid article updateData uid now)
              = articleVersions db1 @ [v]
          \<and> av_articleId v = aid
          \<and> av_versionNumber v = latestVersionNumber (getArticleVersions db1 aid) + 1
          \<and> articles (update_version db1 aid article updateData uid now) = articles db1
          \<and> seq_articles (update_version db1 aid article updateData uid now)
              = seq_articles db1"
      then obtain v where v: "articleVersions db2 = articleVersions db1 @ [v]"
          "av_articleId v = aid"
          "av_versionNumber v = latestVersionNumber (getArticleVersions db1 aid) + 1"
          "articles db2 = articles db1" "seq_articles db2 = seq_articles db1"
        unfolding db2_def by blast
      have "appends_next db aid db2"
        by (rule keeps_appends_next[OF k1 v(1,2,3)])
           (simp_all add: v \<open>getArticle db aid = Some article\<close>)
      then show ?thesis ..
    qed
    from s2 show ?thesis
    proof
      assume "keeps_versions db db2"
      then have "keeps_versions db final" using k3 by (rule keeps_versions_trans)
      then show ?thesis unfolding res ..
    next
      assume "appends_next db aid db2"
      then have "appends_next db aid final" using k3 by (rule appends_next_keeps)
      then show ?thesis unfolding res ..
    qed
  qed
qed

lemma createArticleRoute_effect:
  "keeps_versions db (snd (createArticleRoute slugify db body refs uid now))
   \<or> adds_article db (snd (createArticleRoute slugify db body refs uid now))"
proof (cases body)
  case None
  then show ?thesis by (simp add: createArticleRoute_def)
next
  case (Some parsed)
  define articleData where "articleData = create_data slugify parsed uid now"
  define newArticle where "newArticle = fst (createArticle db articleData now)"
  define db1 where "db1 = snd (createArticle db articleData now)"
  define saved where "saved = fst (saveReferences db1 (a_id newArticle) now refs [])"
  define db2 where "db2 = snd (saveReferences db1 (a_id newArticle) now refs [])"
  define vd where "vd = \<lparr>iav_articleId = a_id newArticle, iav_title = a_title newArticle,
                            iav_description = a_description newArticle,
                            iav_content = a_content newArticle, iav_versionNumber = 1,
                            iav_createdById = uid\<rparr>"
  have res: "snd (createArticleRoute slugify db body refs uid now)
      = (case saved of None \<Rightarrow> db2 | Some _ \<Rightarrow> snd (createArticleVersion db2 vd now))"
    using Some
    by (simp add: createArticleRoute_def articleData_def newArticle_def db1_def saved_def
        db2_def vd_def Let_def split_beta split: option.splits)
  have na: "a_id newArticle = seq_articles db"
    by (simp add: newArticle_def createArticle_def Let_def)
  have d1: "articleVersions db1 = articleVersions db"
      "map a_id (articles db1) = map a_id (articles db) @ [seq_articles db]"
      "seq_articles db1 = seq_articles db + 1"
    by (simp_all add: db1_def createArticle_def Let_def)
  have k: "keeps_versions db1 db2"
    unfolding db2_def by (rule saveReferences_keeps)
  then have d2: "articleVersions db2 = articleVersions db"
      "map a_id (articles db2) = map a_id (articles db) @ [seq_articles db]"
      "seq_articles db2 = seq_articles db + 1"
    using d1 by (simp_all add: keeps_versions_def)
  have "adds_article db (snd (createArticleRoute slugify db body refs uid now))"
  proof (cases saved)
    case None
    then show ?thesis unfolding res using d2 by (simp add: adds_article_def)
  next
    case (Some a)
    then show ?thesis
      unfolding res using d2 na by (simp add: adds_article_def vd_def)
  qed
  then show ?thesis ..
qed

lemma createVersion_effect:
  "keeps_versions db (snd (createVersion db aid body uid now))
   \<or> appends_next db aid (snd (createVersion db aid body uid now))"
proof (cases "createVersion_prepare db aid body uid")
  case (Inl r)
  then show ?thesis by (simp add: createVersion_def)
next
  case (Inr d)
  then have "iav_articleId d = aid
      \<and> iav_versionNumber d = latestVersionNumber (getArticleVersions db aid) + 1
      \<and> getArticle db aid \<noteq> None"
    by (auto simp: createVersion_prepare_def parseVersionData_def Let_def
        split: option.splits json_value.splits)
  then have "appends_next db aid (snd (createVersion db aid body uid now))"
    using Inr by (simp add: createVersion_def appends_next_def split_beta)
  then show ?thesis ..
qed

lemma restoreVersion_effect:
  "keeps_versions db (snd (restoreVersion db aid vid uid now))
   \<or> appends_next db aid (snd (restoreVersion db aid vid uid now))"
proof (cases "getArticle db aid")
  case None
  then show ?thesis by (simp add: restoreVersion_def)
next
  case (Some a)
  show ?thesis
  proof (cases "getArticleVersion db vid")
    case None
    then show ?thesis using Some by (simp add: restoreVersion_def)
  next
    case (Some target)
    show ?thesis
    proof (cases "av_articleId target = aid")
      case True
      have "appends_next db aid (snd (restoreVersion db aid vid uid now))"
        unfolding restoreVersion_ok[OF \<open>getArticle db aid = Some a\<close> Some True]
        using \<open>getArticle db aid = Some a\<close>
        by (simp add: appends_next_def comp_def cong: if_cong)
      then show ?thesis ..
    next
      case False
      then show ?thesis using Some \<open>getArticle db aid = Some a\<close>
        by (simp add: restoreVersion_def)
    qed
  qed
qed

lemma ids_issued_alt:
  "ids_issued db \<longleftrightarrow>
     list_all (\<lambda>i. i < seq_articles db) (map a_id (articles db))
     \<and> list_all (\<lambda>v. av_articleId v < seq_articles db) (articleVersions db)"
  by (simp add: ids_issued_def list.pred_map comp_def)

lemma ids_issued_keeps:
  "ids_issued db \<Longrightarrow> keeps_versions db db' \<Longrightarrow> ids_issued db'"
  unfolding ids_issued_alt by (simp add: keeps_versions_def)

lemma getArticle_issued:
  assumes "ids_issued db" and "getArticle db aid \<noteq> None"
  shows "aid < seq_articles db"
proof -
  from assms(2) obtain a where a: "getArticle db aid = Some a" by auto
  then have "a \<in> set (articles db) \<and> a_id a = aid"
    using find_Some_mem[of "\<lambda>x. a_id x = aid" "articles db" a] by (simp add: getArticle_def)
  then show ?thesis using assms(1) by (auto simp: ids_issued_def list_all_iff)
qed

lemma ids_issued_appends:
  assumes "ids_issued db" and "appends_next db aid db'"
  shows "ids_issued db'"
proof -
  from assms(2) obtain v where v: "articleVersions db' = articleVersions db @ [v]"
      "av_articleId v = aid" "map a_id (articles db') = map a_id (articles db)"
      "seq_articles db' = seq_articles db" "getArticle db aid \<noteq> None"
    by (auto simp: appends_next_def)
  have "aid < seq_articles db" using getArticle_issued[OF assms(1) v(5)] .
  then show ?thesis
    using assms(1) v unfolding ids_issued_alt by simp
qed

lemma ids_issued_adds:
  assumes "ids_issued db" and "adds_article db db'"
  shows "ids_issued db'"
proof -
  have a: "list_all (\<lambda>i. i < seq_articles db + 1) (map a_id (articles db))"
    and b: "list_all (\<lambda>v. av_articleId v < seq_articles db + 1) (articleVersions db)"
    using assms(1) unfolding ids_issued_alt by (auto simp: list_all_iff)
  show ?thesis
    using assms(2) a b unfolding ids_issued_alt adds_article_def by auto
qed

lemma versionNumbers_keeps:
  "keeps_versions db db' \<Longrightarrow> versionNumbers db' aid = versionNumbers db aid"
  by (simp add: keeps_versions_def versionNumbers_def getArticleVersions_def)

lemma append_next_preserves:
  assumes inv: "strictly_increasing_from_1 (versionNumbers db aid)"
    and app: "articleVersions db' = articleVersions db @ [v]"
    and num: "av_versionNumber v
                = latestVersionNumber (getArticleVersions db (av_articleId v)) + 1"
  shows "strictly_increasing_from_1 (versionNumbers db' aid)"
proof (cases "av_articleId v = aid")
  case True
  have n: "av_versionNumber v = latestVersionNumber (getArticleVersions db aid) + 1"
    using num True by simp
  have "getArticleVersions db' aid = v # getArticleVersions db aid"
    by (rule getArticleVersions_append_latest[OF True n app])
  then have "versionNumbers db' aid
      = versionNumbers db aid @ [latestVersionNumber (getArticleVersions db aid) + 1]"
    using n by (simp add: versionNumbers_def)
  then show ?thesis using strictly_increasing_snoc[OF inv] by simp
next
  case False
  have "versionNumbers db' aid = versionNumbers db aid"
    unfolding versionNumbers_def getArticleVersions_append_other[OF False app] ..
  then show ?thesis using inv by simp
qed

lemma no_versions_of_next_id:
  assumes "ids_issued db"
  shows "latestVersionNumber (getArticleVersions db (seq_articles db)) = 0"
proof -
  have "filter (\<lambda>v. av_articleId v = seq_articles db) (articleVersions db) = []"
    using assms by (auto simp: ids_issued_def list_all_iff filter_empty_conv)
  then show ?thesis by (rule latest_empty)
qed

lemma apply_version_op_effect:
  "keeps_versions db (apply_version_op slugify db op)
   \<or> (\<exists>aid. appends_next db aid (apply_version_op slugify db op))
   \<or> adds_article db (apply_version_op slugify db op)"
proof (cases op)
  case (CreateArticle body refs uid now)
  then show ?thesis using createArticleRoute_effect[of db slugify body refs uid now] by auto
next
  case (UpdateArticle aid body refs uid now)
  then show ?thesis using updateArticleRoute_effect[of db slugify aid body refs uid now] by auto
next
  case (CreateVersion aid body uid now)
  then show ?thesis using createVersion_effect[of db aid body uid now] by auto
next
  case (Restore aid vid uid now)
  then show ?thesis using restoreVersion_effect[of db aid vid uid now] by auto
qed

lemma apply_version_op_preserves:
  assumes "ids_issued db" and "strictly_increasing_from_1 (versionNumbers db aid)"
  shows "ids_issued (apply_version_op slugify db op)
       \<and> strictly_increasing_from_1 (versionNumbers (apply_version_op slugify db op) aid)"
proof -
  let ?db' = "apply_version_op slugify db op"
  consider (keeps) "keeps_versions db ?db'"
    | (appends) a where "appends_next db a ?db'"
    | (adds) "adds_article db ?db'"
    using apply_version_op_effect[of db slugify op] by blast
  then show ?thesis
  proof cases
    case keeps
    then show ?thesis
      using assms by (simp add: ids_issued_keeps versionNumbers_keeps)
  next
    case appends
    then obtain v where v: "articleVersions ?db' = articleVersions db @ [v]"
        "av_articleId v = a"
        "av_versionNumber v = latestVersionNumber (getArticleVersions db a) + 1"
      by (auto simp: appends_next_def)
    have "strictly_increasing_from_1 (versionNumbers ?db' aid)"
      by (rule append_next_preserves[OF assms(2) v(1)]) (simp add: v)
    then show ?thesis using ids_issued_appends[OF assms(1) appends] by simp
  next
    case adds
    have i: "ids_issued ?db'" by (rule ids_issued_adds[OF assms(1) adds])
    from adds consider (same) "articleVersions ?db' = articleVersions db"
      | (first) v where "articleVersions ?db' = articleVersions db @ [v]"
          "av_articleId v = seq_articles db" "av_versionNumber v = 1"
      by (auto simp: adds_article_def)
    then have "strictly_increasing_from_1 (versionNumbers ?db' aid)"
    proof cases
      case same
      then have "versionNumbers ?db' aid = versionNumbers db aid"
        by (simp add: versionNumbers_def getArticleVersions_def)
      then show ?thesis using assms(2) by simp
    next
      case first
      show ?thesis
        by (rule append_next_preserves[OF assms(2) first(1)])
           (simp add: first no_versions_of_next_id[OF assms(1)])
    qed
    then show ?thesis using i by simp
  qed
qed

lemma run_version_ops_preserves:
  assumes "ids_issued db" and "strictly_increasing_from_1 (versionNumbers db aid)"
  shows "ids_issued (run_version_ops slugify db ops)
       \<and> strictly_increasing_from_1 (versionNumbers (run_version_ops slugify db ops) aid)"
  using assms
proof (induction ops arbitrary: db)
  case Nil
  then show ?case by simp
next
  case (Cons op ops)
  from apply_version_op_preserves[OF Cons.prems, of slugify op]
  show ?case using Cons.IH by simp
qed

lemma empty_database_invariants:
  "ids_issued empty_database"
  "strictly_increasing_from_1 (versionNumbers empty_database aid)"
  by (simp_all add: ids_issued_def empty_database_def versionNumbers_def
      getArticleVersions_def strictly_increasing_from_1_def)

text \<open>
  C5, amended.  For any sequence of article-create, article-update, version-create and
  restore requests that run one after the other: if the article ids in use were issued by
  the sequence and the version numbers of an article, in ascending order, are strictly
  increasing and start at 1 (an article without versions included), they are so again
  after the requests; in particular they are so for every article after any such sequence
  of requests from the empty database.
\<close>

theorem version_numbers_sequential:
  "(ids_issued db \<and> strictly_increasing_from_1 (versionNumbers db aid) \<longrightarrow>
      strictly_increasing_from_1 (versionNumbers (run_version_ops slugify db ops) aid))
   \<and> strictly_increasing_from_1
        (versionNumbers (run_version_ops slugify empty_database ops) aid)"
  using run_version_ops_preserves[where db = db and aid = aid and slugify = slugify
        and ops = ops]
    run_version_ops_preserves[where db = empty_database and aid = aid and slugify = slugify
        and ops = ops]
    empty_database_invariants
  by blast

lemmas route_evaluation =
  version_evaluation versionNumbers_def example_requests_def zakat_article_def plain_slug_def
  createArticleRoute_def create_data_def createArticle_def createReference_def
  updateArticleRoute_def update_data_def update_version_def update_references_def
  getReferences_def truthy_def truthy_string_def

lemma scenario_versionNumbers: "versionNumbers scenario_database 1 = [1]"
  by (simp add: version_evaluation versionNumbers_def)

lemma interleaved_versionNumbers: "versionNumbers
       (createVersion_interleaved scenario_database 1
          (text_body ''Salah Importance'' ''Edit A'') (Some 1) 100
          (text_body ''Salah Importance'' ''Edit B'') (Some 1) 101) 1 = [1, 2, 2]"
  by (simp add: version_evaluation versionNumbers_def createVersion_interleaved_def)

text \<open>
  C5, as stated, fails when requests race: article 1 has the single version 1; two
  version-create requests that both read the version list before either inserts both
  compute the number 2, and the article's version numbers become 1, 2, 2.
\<close>

theorem version_numbers_race_counterexample:
  "versionNumbers scenario_database 1 = [1]
   \<and> versionNumbers
       (createVersion_interleaved scenario_database 1
          (text_body ''Salah Importance'' ''Edit A'') (Some 1) 100
          (text_body ''Salah Importance'' ''Edit B'') (Some 1) 101) 1 = [1, 2, 2]
   \<and> \<not> strictly_increasing_from_1
       (versionNumbers
         (createVersion_interleaved scenario_database 1
            (text_body ''Salah Importance'' ''Edit A'') (Some 1) 100
            (text_body ''Salah Importance'' ''Edit B'') (Some 1) 101) 1)"
  unfolding interleaved_versionNumbers
  by (simp add: scenario_versionNumbers strictly_increasing_from_1_def)

text \<open>
  The theorem at the scenario database: an article-create, an update of article 1, a
  version-create and a restore on article 1 give article 1 the numbers 1, 2, 3, 4 and
  the new article 4 the number 1.
\<close>

theorem version_numbers_sequential_witness:
  "ids_issued scenario_database
   \<and> strictly_increasing_from_1 (versionNumbers scenario_database 1)
   \<and> strictly_increasing_from_1
       (versionNumbers (run_version_ops plain_slug scenario_database example_requests) 1)
   \<and> versionNumbers (run_version_ops plain_slug scenario_database example_requests) 1
       = [1, 2, 3, 4]
   \<and> versionNumbers (run_version_ops plain_slug scenario_database example_requests) 4
       = [1]"
proof -
  have i: "ids_issued scenario_database"
    by (simp add: ids_issued_def route_evaluation)
  have h: "strictly_increasing_from_1 (versionNumbers scenario_database 1)"
    unfolding scenario_versionNumbers by (simp add: strictly_increasing_from_1_def)
  have v1: "versionNumbers (run_version_ops plain_slug scenario_database example_requests) 1
      = [1, 2, 3, 4]"
    by (simp add: route_evaluation)
  have v4: "versionNumbers (run_version_ops plain_slug scenario_database example_requests) 4
      = [1]"
    by (simp add: route_evaluation)
  from version_numbers_sequential[where db = scenario_database and aid = 1
      and slugify = plain_slug and ops = example_requests] i h
  have "strictly_increasing_from_1
       (versionNumbers (run_version_ops plain_slug scenario_database example_requests) 1)"
    by blast
  then show ?thesis using i h v1 v4 by simp
qed

section \<open>The version routes at the scenario database\<close>

text \<open>
  C4 at the scenario database: article 1 has version 1, so the new version is numbered 2;
  with the table of versions emptied it is numbered 1.
\<close>

theorem createVersion_next_number_witness:
  "getArticle scenario_database 1 = Some salah_importance
   \<and> fst (createVersion scenario_database 1
             (text_body ''Salah Importance'' ''Edit A'') (Some 1) 100)
       = (201, VersionJson
                 \<lparr>av_id = 4, av_articleId = 1, av_title = ''Salah Importance'',
                  av_description = None, av_content = ''Edit A'', av_versionNumber = 2,
                  av_createdById = Some 1, av_createdAt = 100\<rparr>)
   \<and> fst (createVersion (scenario_database\<lparr>articleVersions := []\<rparr>) 1
             (text_body ''Salah Importance'' ''Edit A'') (Some 1) 100)
       = (201, VersionJson
                 \<lparr>av_id = 4, av_articleId = 1, av_title = ''Salah Importance'',
                  av_description = None, av_content = ''Edit A'', av_versionNumber = 1,
                  av_createdById = Some 1, av_createdAt = 100\<rparr>)"
proof -
  have a: "getArticle scenario_database 1 = Some salah_importance"
    by (simp add: version_evaluation)
  have a': "getArticle (scenario_database\<lparr>articleVersions := []\<rparr>) 1 = Some salah_importance"
    by (simp add: version_evaluation)
  have t: "vb_title (text_body ''Salah Importance'' ''Edit A'') = Str ''Salah Importance''"
    and c: "vb_content (text_body ''Salah Importance'' ''Edit A'') = Str ''Edit A''"
    and d: "vb_description (text_body ''Salah Importance'' ''Edit A'') \<noteq> Other"
    by (simp_all add: text_body_def)
  from createVersion_next_number[OF a t c d, of "Some 1" 100]
  have r1: "fst (createVersion scenario_database 1
             (text_body ''Salah Importance'' ''Edit A'') (Some 1) 100)
       = (201, VersionJson
                 \<lparr>av_id = 4, av_articleId = 1, av_title = ''Salah Importance'',
                  av_description = None, av_content = ''Edit A'', av_versionNumber = 2,
                  av_createdById = Some 1, av_createdAt = 100\<rparr>)"
    by (simp add: version_evaluation)
  from createVersion_next_number[OF a' t c d, of "Some 1" 100]
  have r2: "fst (createVersion (scenario_database\<lparr>articleVersions := []\<rparr>) 1
             (text_body ''Salah Importance'' ''Edit A'') (Some 1) 100)
       = (201, VersionJson
                 \<lparr>av_id = 4, av_articleId = 1, av_title = ''Salah Importance'',
                  av_description = None, av_content = ''Edit A'', av_versionNumber = 1,
                  av_createdById = Some 1, av_createdAt = 100\<rparr>)"
    by (simp add: version_evaluation)
  from a r1 r2 show ?thesis by simp
qed

text \<open>
  C3 at the edited database: restoring article 1 to its version 2 (row id 4) sets the
  article's content to that version's and appends version 3 with the same content.
\<close>

theorem restoreVersion_forward_only_witness:
  "getArticle edited_database 1 = Some salah_importance
   \<and> map_option av_articleId (getArticleVersion edited_database 4) = Some 1
   \<and> map_option av_content (getArticleVersion edited_database 4) = Some ''Edit A''
   \<and> map_option a_content (getArticle (snd (restoreVersion edited_database 1 4 (Some 1) 200)) 1)
       = Some ''Edit A''
   \<and> map av_versionNumber
         (articleVersions (snd (restoreVersion edited_database 1 4 (Some 1) 200)))
       = [1, 1, 1, 2, 3]
   \<and> map av_content
         (articleVersions (snd (restoreVersion edited_database 1 4 (Some 1) 200)))
       = [''Five times a day'', ''Notes on recitation'', ''From Makkah to Madinah'',
          ''Edit A'', ''Edit A'']"
proof -
  have a: "getArticle edited_database 1 = Some salah_importance"
    by (simp add: edited_database_def version_evaluation)
  have v: "getArticleVersion edited_database 4
      = Some \<lparr>av_id = 4, av_articleId = 1, av_title = ''Salah Importance'',
              av_description = None, av_content = ''Edit A'', av_versionNumber = 2,
              av_createdById = Some 1, av_createdAt = 100\<rparr>"
    by (simp add: edited_database_def version_evaluation)
  have b: "av_articleId \<lparr>av_id = 4, av_articleId = 1, av_title = ''Salah Importance'',
              av_description = None, av_content = ''Edit A'', av_versionNumber = 2,
              av_createdById = Some 1, av_createdAt = 100\<rparr> = 1"
    by simp
  have vs: "articleVersions edited_database
      = [initial_version 1 salah_importance, initial_version 2 quran_study,
         initial_version 3 salah_history,
         \<lparr>av_id = 4, av_articleId = 1, av_title = ''Salah Importance'',
              av_description = None, av_content = ''Edit A'', av_versionNumber = 2,
              av_createdById = Some 1, av_createdAt = 100\<rparr>]"
    by (simp add: edited_database_def version_evaluation)
  from restoreVersion_forward_only[OF a v b, of "Some 1" 200]
  obtain updated new db' where r:
    "restoreVersion edited_database 1 4 (Some 1) 200
       = ((200, RestoredJson (Some updated) 2), db')"
    "getArticle db' 1 = Some updated"
    "a_content updated = ''Edit A''"
    "articleVersions db' = articleVersions edited_database @ [new]"
    "av_versionNumber new
       = Max (av_versionNumber ` {x \<in> set (articleVersions edited_database). av_articleId x = 1}) + 1"
    "av_content new = ''Edit A''"
    by auto
  have "av_versionNumber ` {x \<in> set (articleVersions edited_database). av_articleId x = 1}
      = set (map av_versionNumber
               (filter (\<lambda>x. av_articleId x = 1) (articleVersions edited_database)))"
    by auto
  also have "\<dots> = {1, 2}"
    unfolding vs by (simp add: initial_version_def salah_importance_def quran_study_def
        salah_history_def)
  finally have "av_versionNumber ` {x \<in> set (articleVersions edited_database). av_articleId x = 1}
      = {1, 2}" .
  then have n: "av_versionNumber new = 3" using r(5) by simp
  show ?thesis
    using a v r(1,2,3,4,6) n vs
    by (simp add: initial_version_def salah_importance_def quran_study_def
        salah_history_def)
qed

text \<open>
  C8 at the scenario database: for article 1, the version id 99 is unknown and the
  version id 2 belongs to article 2.
\<close>

theorem version_not_found_same_signal_witness:
  "getArticle scenario_database 1 = Some salah_importance
   \<and> getArticleVersion scenario_database 99 = None
   \<and> map_option av_articleId (getArticleVersion scenario_database 2) = Some 2
   \<and> getVersion scenario_database 1 99 = (404, Message ''Version not found for this article'')
   \<and> getVersion scenario_database 1 2 = (404, Message ''Version not found for this article'')
   \<and> restoreVersion scenario_database 1 99 (Some 1) 100
       = ((404, Message ''Version not found for this article''), scenario_database)
   \<and> restoreVersion scenario_database 1 2 (Some 1) 100
       = ((404, Message ''Version not found for this article''), scenario_database)"
proof -
  have a: "getArticle scenario_database 1 = Some salah_importance"
    by (simp add: version_evaluation)
  have m: "getArticleVersion scenario_database 99 = None"
    by (simp add: version_evaluation)
  have f: "getArticleVersion scenario_database 2 = Some (initial_version 2 quran_study)"
    by (simp add: version_evaluation)
  have o: "av_articleId (initial_version 2 quran_study) \<noteq> 1"
    by (simp add: initial_version_def quran_study_def)
  from version_not_found_same_signal[OF a m f o, of "Some 1" 100] a m f show ?thesis
    by (simp add: initial_version_def quran_study_def)
qed

section \<open>Pattern matching and the listing\<close>

lemma like_match_percent [simp]: "like_match [CHR ''%''] s"
  by (induction s) auto

lemma like_match_plain_prefix:
  assumes "list_all (\<lambda>c. \<not> like_metachar c) x"
  shows "like_match (x @ [CHR ''%'']) s \<longleftrightarrow> prefix x s"
  using assms
proof (induction x arbitrary: s)
  case Nil
  then show ?case by simp
next
  case (Cons p ps)
  then have p: "p \<noteq> CHR ''%''" "p \<noteq> CHR ''_''" "p \<noteq> CHR 0x5C"
    and ps: "list_all (\<lambda>c. \<not> like_metachar c) ps"
    by (simp_all add: like_metachar_def)
  show ?case
  proof (cases s)
    case Nil
    then show ?thesis using p by simp
  next
    case (Cons c s')
    then show ?thesis using p Cons.IH[OF ps, of s'] by auto
  qed
qed

lemma like_match_leading_percent:
  "like_match (CHR ''%'' # q) s \<longleftrightarrow> (\<exists>t. suffix t s \<and> like_match q t)"
proof (induction s)
  case Nil
  then show ?case by simp
next
  case (Cons c s)
  have "like_match (CHR ''%'' # q) (c # s)
      \<longleftrightarrow> like_match q (c # s) \<or> like_match (CHR ''%'' # q) s"
    by simp
  also have "\<dots> \<longleftrightarrow> like_match q (c # s) \<or> (\<exists>t. suffix t s \<and> like_match q t)"
    using Cons.IH by simp
  also have "\<dots> \<longleftrightarrow> (\<exists>t. suffix t (c # s) \<and> like_match q t)"
    by (auto simp: suffix_Cons)
  finally show ?case .
qed

lemma like_match_substring:
  assumes "list_all (\<lambda>c. \<not> like_metachar c) x"
  shows "like_match (CHR ''%'' # x @ [CHR ''%'']) s \<longleftrightarrow> sublist x s"
  unfolding like_match_leading_percent like_match_plain_prefix[OF assms] sublist_altdef'
  by blast

lemma lower_not_metachar:
  assumes "\<not> like_metachar c"
  shows "\<not> like_metachar (lower c)"
proof (cases "map_of (zip ''ABCDEFGHIJKLMNOPQRSTUVWXYZ'' ''abcdefghijklmnopqrstuvwxyz'') c")
  case None
  then show ?thesis using assms by (simp add: lower_def)
next
  case (Some l)
  then have "l \<in> set ''abcdefghijklmnopqrstuvwxyz''"
    by (meson map_of_SomeD set_zip_rightD)
  then have "\<not> like_metachar l"
    by (auto simp: like_metachar_def)
  then show ?thesis using Some by (simp add: lower_def)
qed

lemma lower_percent [simp]: "lower (CHR ''%'') = CHR ''%''"
  by (simp add: lower_def)

lemma ilike_substring:
  assumes "list_all (\<lambda>c. \<not> like_metachar c) search"
  shows "ilike txt (''%'' @ search @ ''%'') \<longleftrightarrow> contains_ci search txt"
proof -
  have "list_all (\<lambda>c. \<not> like_metachar c) (map lower search)"
    using assms by (simp add: list_all_iff lower_not_metachar)
  from like_match_substring[OF this] show ?thesis
    by (simp add: ilike_def contains_ci_def)
qed

lemma foldl_and:
  "foldl (\<lambda>acc condition. \<lambda>a. acc a \<and> condition a) c cs
     = (\<lambda>a. c a \<and> list_all (\<lambda>d. d a) cs)"
  by (induction cs arbitrary: c) (auto simp: fun_eq_iff)

lemma select_where_whereClause:
  "select_where (whereClause cs) rows = filter (\<lambda>a. list_all (\<lambda>c. c a) cs) rows"
  by (cases cs) (simp_all add: select_where_def whereClause_def foldl_and)

lemma truthy_given: "truthy x \<longleftrightarrow> given_number x \<noteq> None"
  by (cases x) (simp_all add: truthy_def given_number_def)

lemma conditions_topic:
  "list_all (\<lambda>c. c a)
     (if truthy t then [\<lambda>a. a_topicId a = t] else [])
   \<longleftrightarrow> (case given_number t of None \<Rightarrow> True | Some n \<Rightarrow> a_topicId a = Some n)"
  by (cases t) (auto simp: truthy_def given_number_def)

lemma conditions_author:
  "list_all (\<lambda>c. c a)
     (if truthy t then [\<lambda>a. a_authorId a = t] else [])
   \<longleftrightarrow> (case given_number t of None \<Rightarrow> True | Some n \<Rightarrow> a_authorId a = Some n)"
  by (cases t) (auto simp: truthy_def given_number_def)

lemma conditions_status:
  "list_all (\<lambda>c. c a)
     (case st of None \<Rightarrow> []
      | Some status \<Rightarrow> if status \<noteq> [] then [\<lambda>a. a_status a = status] else [])
   \<longleftrightarrow> (case given_string st of None \<Rightarrow> True | Some status \<Rightarrow> a_status a = status)"
  by (cases st) (auto simp: given_string_def)

lemma conditions_search:
  assumes "case se of None \<Rightarrow> True | Some search \<Rightarrow> list_all (\<lambda>c. \<not> like_metachar c) search"
  shows "list_all (\<lambda>c. c a)
     (case se of
          None \<Rightarrow> []
        | Some search \<Rightarrow>
            if search \<noteq> []
            then (let searchPattern = ''%'' @ search @ ''%''
                  in [\<lambda>a. ilike (a_title a) searchPattern
                          \<or> (case a_description a of None \<Rightarrow> False
                              | Some d \<Rightarrow> ilike d searchPattern)
                          \<or> ilike (a_content a) searchPattern])
            else [])
   \<longleftrightarrow> (case given_string se of
            None \<Rightarrow> True
          | Some search \<Rightarrow>
              contains_ci search (a_title a)
              \<or> (case a_description a of None \<Rightarrow> False | Some d \<Rightarrow> contains_ci search d)
              \<or> contains_ci search (a_content a))"
proof (cases se)
  case None
  then show ?thesis by (simp add: given_string_def)
next
  case (Some search)
  then have plain: "list_all (\<lambda>c. \<not> like_metachar c) search" using assms by simp
  show ?thesis
  proof (cases "search = []")
    case True
    then show ?thesis using Some by (simp add: given_string_def)
  next
    case False
    then show ?thesis
      using Some ilike_substring[OF plain]
      by (simp add: given_string_def Let_def split: option.splits)
  qed
qed

lemma conditions_matches_filters:
  assumes "plain_search options"
  shows "list_all (\<lambda>c. c a) (getArticles_conditions options) \<longleftrightarrow> matches_filters options a"
proof -
  have s: "case opt_search options of None \<Rightarrow> True
           | Some search \<Rightarrow> list_all (\<lambda>c. \<not> like_metachar c) search"
    using assms by (simp add: plain_search_def)
  show ?thesis
    unfolding getArticles_conditions_def matches_filters_def list_all_append
      conditions_topic conditions_author conditions_status conditions_search[OF s]
    by simp
qed

lemma getArticles_select:
  assumes "plain_search options"
  shows "select_where (whereClause (getArticles_conditions options)) rows
           = filter (matches_filters options) rows"
  unfolding select_where_whereClause
  by (rule filter_cong) (simp_all add: conditions_matches_filters[OF assms])

lemma newest_first_sort:
  "newest_first (sort_key (\<lambda>a. - a_updatedAt a) rows)"
proof -
  have "sorted (map (\<lambda>a. - a_updatedAt a) (sort_key (\<lambda>a. - a_updatedAt a) rows))"
    by (rule sorted_sort_key)
  then have "sorted_wrt (\<lambda>x y. a_updatedAt y \<le> a_updatedAt x)
               (sort_key (\<lambda>a. - a_updatedAt a) rows)"
    by (simp add: sorted_wrt_map)
  then show ?thesis
    by (simp add: newest_first_def sorted_wrt_rev sorted_wrt_map)
qed

lemma newest_first_alt:
  "newest_first rows = sorted_wrt (\<lambda>x y. a_updatedAt y \<le> a_updatedAt x) rows"
  by (simp add: newest_first_def sorted_wrt_rev sorted_wrt_map)

lemma newest_first_page:
  "newest_first rows \<Longrightarrow> newest_first (take n (drop m rows))"
  unfolding newest_first_alt by (intro sorted_wrt_take sorted_wrt_drop)

lemma getArticles_eq:
  "getArticles db options =
     \<lparr>page_articles =
        take (case opt_limit options of None \<Rightarrow> 10 | Some l \<Rightarrow> l)
          (drop (case opt_offset options of None \<Rightarrow> 0 | Some off \<Rightarrow> off)
             (sort_key (\<lambda>a. - a_updatedAt a)
                (select_where (whereClause (getArticles_conditions options)) (articles db)))),
      page_total = length (select_where (whereClause (getArticles_conditions options))
                             (articles db))\<rparr>"
  by (simp add: getArticles_def Let_def)

lemma salah_scenario_selection:
  assumes "a_title a1 = ''Salah Importance''" "a_status a1 = ''published''"
    and "a_title a2 = ''Quran Study''" "a_status a2 = ''draft''"
    and "a_title a3 = ''Salah History''" "a_status a3 = ''published''"
  shows "select_where (whereClause (getArticles_conditions salah_query)) [a1, a2, a3] = [a1, a3]"
proof -
  have t1: "ilike ''Salah Importance'' ''%salah%''"
    by (simp add: ilike_def lower_def)
  have t3: "ilike ''Salah History'' ''%salah%''"
    by (simp add: ilike_def lower_def)
  show ?thesis
    using assms t1 t3
    by (simp add: select_where_whereClause getArticles_conditions_def salah_query_def Let_def
        truthy_def)
qed

text \<open>
  C7, amended.  For a search string without the pattern characters \<open>%\<close>, \<open>_\<close> and
  backslash, \<open>getArticles\<close> selects the articles whose title, description or content
  contains the search string as a substring, case-insensitively, and that pass the topic,
  status and author filters that are given, all conditions joined by "and"; a topic or
  author id of 0 and an empty status or search string count as not given.  The total is
  the number of selected articles; the page is the selected articles ordered by update
  time, newest first, with \<open>offset\<close> rows skipped and at most \<open>limit\<close> rows taken
  (defaults 0 and 10).  For the articles "Salah Importance" (published), "Quran Study"
  (draft) and "Salah History" (published), the search "salah" with status "published"
  returns exactly these two published articles, total 2, newest update first.
\<close>

theorem getArticles_listing:
  "(plain_search options \<longrightarrow>
      page_total (getArticles db options)
        = length (filter (matches_filters options) (articles db))
      \<and> page_articles (getArticles db options)
          = take (case opt_limit options of None \<Rightarrow> 10 | Some l \<Rightarrow> l)
              (drop (case opt_offset options of None \<Rightarrow> 0 | Some off \<Rightarrow> off)
                 (sort_key (\<lambda>a. - a_updatedAt a)
                    (filter (matches_filters options) (articles db))))
      \<and> newest_first (sort_key (\<lambda>a. - a_updatedAt a)
                         (filter (matches_filters options) (articles db)))
      \<and> newest_first (page_articles (getArticles db options)))
   \<and> (articles db0 = [a1, a2, a3]
        \<and> a_title a1 = ''Salah Importance'' \<and> a_status a1 = ''published''
        \<and> a_title a2 = ''Quran Study'' \<and> a_status a2 = ''draft''
        \<and> a_title a3 = ''Salah History'' \<and> a_status a3 = ''published'' \<longrightarrow>
        page_total (getArticles db0 salah_query) = 2
        \<and> length (page_articles (getArticles db0 salah_query)) = 2
        \<and> set (page_articles (getArticles db0 salah_query)) = {a1, a3}
        \<and> newest_first (page_articles (getArticles db0 salah_query)))"
proof (intro conjI impI)
  assume plain: "plain_search options"
  note sel = getArticles_select[OF plain, of "articles db"]
  show "page_total (getArticles db options)
        = length (filter (matches_filters options) (articles db))"
    by (simp add: getArticles_eq sel)
  show "page_articles (getArticles db options)
          = take (case opt_limit options of None \<Rightarrow> 10 | Some l \<Rightarrow> l)
              (drop (case opt_offset options of None \<Rightarrow> 0 | Some off \<Rightarrow> off)
                 (sort_key (\<lambda>a. - a_updatedAt a)
                    (filter (matches_filters options) (articles db))))"
    by (simp add: getArticles_eq sel)
  show "newest_first (sort_key (\<lambda>a. - a_updatedAt a)
                         (filter (matches_filters options) (articles db)))"
    by (rule newest_first_sort)
  show "newest_first (page_articles (getArticles db options))"
    by (simp add: getArticles_eq newest_first_page newest_first_sort)
next
  assume sc: "articles db0 = [a1, a2, a3]
        \<and> a_title a1 = ''Salah Importance'' \<and> a_status a1 = ''published''
        \<and> a_title a2 = ''Quran Study'' \<and> a_status a2 = ''draft''
        \<and> a_title a3 = ''Salah History'' \<and> a_status a3 = ''published''"
  then have sel: "select_where (whereClause (getArticles_conditions salah_query)) (articles db0)
      = [a1, a3]"
    using salah_scenario_selection[of a1 a2 a3] by simp
  have page: "page_articles (getArticles db0 salah_query)
      = sort_key (\<lambda>a. - a_updatedAt a) [a1, a3]"
    unfolding getArticles_eq sel by (simp add: salah_query_def)
  show "page_total (getArticles db0 salah_query) = 2"
    unfolding getArticles_eq sel by simp
  show "length (page_articles (getArticles db0 salah_query)) = 2"
    unfolding page by simp
  show "set (page_articles (getArticles db0 salah_query)) = {a1, a3}"
    unfolding page by (simp only: set_sort) simp
  show "newest_first (page_articles (getArticles db0 salah_query))"
    unfolding page by (rule newest_first_sort)
qed

text \<open>
  The theorem at the scenario database: "Salah History" (updated at 50) comes before
  "Salah Importance" (updated at 30).
\<close>

theorem getArticles_listing_witness:
  "plain_search salah_query
   \<and> articles scenario_database = [salah_importance, quran_study, salah_history]
   \<and> page_total (getArticles scenario_database salah_query) = 2
   \<and> page_articles (getArticles scenario_database salah_query)
       = [salah_history, salah_importance]
   \<and> newest_first (page_articles (getArticles scenario_database salah_query))"
proof -
  have p: "plain_search salah_query"
    by (simp add: plain_search_def salah_query_def like_metachar_def)
  have a: "articles scenario_database = [salah_importance, quran_study, salah_history]"
    by (simp add: scenario_database_def empty_database_def)
  have f: "a_title salah_importance = ''Salah Importance''"
    "a_status salah_importance = ''published''"
    "a_title quran_study = ''Quran Study''" "a_status quran_study = ''draft''"
    "a_title salah_history = ''Salah History''" "a_status salah_history = ''published''"
    by (simp_all add: salah_importance_def quran_study_def salah_history_def)
  note t = getArticles_listing[of salah_query scenario_database scenario_database
      salah_importance quran_study salah_history]
  have sc: "articles scenario_database = [salah_importance, quran_study, salah_history]
        \<and> a_title salah_importance = ''Salah Importance''
        \<and> a_status salah_importance = ''published''
        \<and> a_title quran_study = ''Quran Study'' \<and> a_status quran_study = ''draft''
        \<and> a_title salah_history = ''Salah History''
        \<and> a_status salah_history = ''published''"
    using a f by simp
  from t sc have r1: "page_total (getArticles scenario_database salah_query) = 2"
    by blast
  from t p have r2: "newest_first (page_articles (getArticles scenario_database salah_query))"
    by blast
  have "page_articles (getArticles scenario_database salah_query)
       = [salah_history, salah_importance]"
    unfolding getArticles_eq a salah_scenario_selection[OF f]
    by (simp add: salah_query_def salah_importance_def salah_history_def)
  with p a r1 r2 show ?thesis by simp
qed

text \<open>
  C7, as stated, fails on a search string with a pattern character and on a filter value
  of 0: the search "_" selects all three articles of the scenario database, none of which
  has an underscore in its title, description or content (the substring match selects
  none); and the topic filter 0 selects all three articles, whose topics are 1, 1 and
  null.
\<close>

theorem getArticles_wildcard_counterexample:
  "page_total (getArticles scenario_database underscore_query) = 3
   \<and> filter (matches_filters underscore_query) (articles scenario_database) = []
   \<and> page_total (getArticles scenario_database topic_zero_query) = 3
   \<and> map a_topicId (articles scenario_database) = [Some 1, Some 1, None]"
proof -
  have c: "page_total (getArticles scenario_database underscore_query) = 3"
    by (simp add: getArticles_eq select_where_whereClause getArticles_conditions_def
      underscore_query_def truthy_def Let_def scenario_database_def empty_database_def
      salah_importance_def quran_study_def salah_history_def ilike_def lower_def)
  have s: "filter (matches_filters underscore_query) (articles scenario_database) = []"
    by (simp add: matches_filters_def underscore_query_def given_number_def given_string_def
      contains_ci_def scenario_database_def empty_database_def
      salah_importance_def quran_study_def salah_history_def lower_def sublist_code(3))
  have z: "page_total (getArticles scenario_database topic_zero_query) = 3"
    by (simp add: getArticles_eq select_where_whereClause getArticles_conditions_def
      topic_zero_query_def truthy_def scenario_database_def empty_database_def)
  have n: "map a_topicId (articles scenario_database) = [Some 1, Some 1, None]"
    by (simp add: scenario_database_def empty_database_def
      salah_importance_def quran_study_def salah_history_def)
  show ?thesis using c s z n by simp
qed

section \<open>The ranking of articles by views\<close>

text \<open>
  C2 fails on the code: the ranking is computed over the whole view log.  Article 1 has
  two views at times 1 and 2, article 3 one view at time 10; for the range from 5 to 15
  the function returns article 1 first with 2 views, where the ranking over the views of
  the range holds article 3 alone; the result is the same as without a range.
\<close>

theorem topArticles_ignores_date_range:
  "getOverviewStats_topArticles views_database (Some 5) (Some 15)
     = [\<lparr>ta_id = 1, ta_title = ''Salah Importance'', ta_views = 2\<rparr>,
        \<lparr>ta_id = 3, ta_title = ''Salah History'', ta_views = 1\<rparr>]
   \<and> topArticles_in_range views_database (Some 5) (Some 15)
     = [\<lparr>ta_id = 3, ta_title = ''Salah History'', ta_views = 1\<rparr>]
   \<and> getOverviewStats_topArticles views_database (Some 5) (Some 15)
     = getOverviewStats_topArticles views_database None None"
  by (simp add: getOverviewStats_topArticles_def topArticles_in_range_def topArticlesQuery_def
      in_range_def views_database_def scenario_database_def empty_database_def
      salah_importance_def quran_study_def salah_history_def Let_def)

section \<open>Deletion\<close>

text \<open>
  C10.  \<open>deleteArticle\<close>, \<open>deleteTopic\<close> and \<open>deleteReference\<close> return true for every
  id; for an id that no row of the table has, they return true and leave the database as
  it was.
\<close>

theorem delete_reports_success:
  "fst (deleteArticle db i) \<and> fst (deleteTopic db i) \<and> fst (deleteReference db i)
   \<and> (getArticle db i = None \<longrightarrow> deleteArticle db i = (True, db))
   \<and> (find (\<lambda>t. t_id t = i) (topics db) = None \<longrightarrow> deleteTopic db i = (True, db))
   \<and> (find (\<lambda>r. r_id r = i) (references db) = None \<longrightarrow> deleteReference db i = (True, db))"
proof (intro conjI impI)
  show "fst (deleteArticle db i)" by (simp add: deleteArticle_def)
  show "fst (deleteTopic db i)" by (simp add: deleteTopic_def)
  show "fst (deleteReference db i)" by (simp add: deleteReference_def)
next
  assume "getArticle db i = None"
  then have "\<not> list_ex (\<lambda>a. a_id a = i) (articles db)"
    by (simp add: getArticle_def find_None_iff list_ex_iff)
  then show "deleteArticle db i = (True, db)" by (simp add: deleteArticle_def)
next
  assume "find (\<lambda>t. t_id t = i) (topics db) = None"
  then have "\<not> list_ex (\<lambda>t. t_id t = i) (topics db)"
    by (simp add: find_None_iff list_ex_iff)
  then show "deleteTopic db i = (True, db)" by (simp add: deleteTopic_def)
next
  assume "find (\<lambda>r. r_id r = i) (references db) = None"
  then have "filter (\<lambda>r. r_id r \<noteq> i) (references db) = references db"
    by (simp add: find_None_iff filter_id_conv)
  then show "deleteReference db i = (True, db)" by (simp add: deleteReference_def)
qed

text \<open>
  The theorem at the scenario database: the id 99 is in no table; the id 1 is an article.
\<close>

theorem delete_reports_success_witness:
  "getArticle scenario_database 99 = None
   \<and> deleteArticle scenario_database 99 = (True, scenario_database)
   \<and> deleteTopic scenario_database 99 = (True, scenario_database)
   \<and> deleteReference scenario_database 99 = (True, scenario_database)
   \<and> fst (deleteArticle scenario_database 1)
   \<and> map a_id (articles (snd (deleteArticle scenario_database 1))) = [2, 3]"
proof -
  have a: "getArticle scenario_database 99 = None"
    and t: "find (\<lambda>t. t_id t = 99) (topics scenario_database) = None"
    and r: "find (\<lambda>r. r_id r = 99) (references scenario_database) = None"
    by (simp_all add: getArticle_def scenario_database_def empty_database_def
        salah_importance_def quran_study_def salah_history_def)
  have d: "map a_id (articles (snd (deleteArticle scenario_database 1))) = [2, 3]"
    by (simp add: deleteArticle_def scenario_database_def empty_database_def
        salah_importance_def quran_study_def salah_history_def)
  from delete_reports_success[of scenario_database 99]
    delete_reports_success[of scenario_database 1] a t r d
  show ?thesis by simp
qed

end
